theory Spec2Isabelle
  imports Main "HOL-Library.Word" "HOL-Library.AList" "HOL-Library.Sublist"
begin

section \<open>Strings, bytes and paths\<close>

text \<open>
  A JavaScript string is a sequence of UTF-16 code units; a file holds bytes.
  String literals of the scripts are written \<open>js ''...''\<close>.
\<close>

type_synonym byte = "8 word"
type_synonym jsstring = "16 word list"

definition js :: "string \<Rightarrow> jsstring" where
  "js s = map (\<lambda>c. of_nat (of_char c)) s"

text \<open>\<open>xs.join(sep)\<close> on an array of strings.\<close>

fun join :: "jsstring \<Rightarrow> jsstring list \<Rightarrow> jsstring" where
  "join sep [] = []"
| "join sep [x] = x"
| "join sep (x # y # ys) = x @ sep @ join sep (y # ys)"

text \<open>
  A path is kept resolved: the list of its components below the root \<open>/\<close>.
  \<open>path.resolve\<close> splits its arguments at \<open>/\<close>, drops empty and \<open>.\<close> segments and lets
  \<open>..\<close> remove the segment before it; an argument that starts with \<open>/\<close> discards what
  is to its left.  The first argument is absolute in both scripts, so the working
  directory never enters.
\<close>

type_synonym name = jsstring
type_synonym path = "name list"

fun segments :: "jsstring \<Rightarrow> jsstring \<Rightarrow> jsstring list" where
  "segments cur [] = [cur]"
| "segments cur (c # cs) = (if c = 0x2F then cur # segments [] cs else segments (cur @ [c]) cs)"

fun normalize :: "path \<Rightarrow> jsstring list \<Rightarrow> path" where
  "normalize acc [] = acc"
| "normalize acc (s # ss) =
     (if s = [] \<or> s = js ''.'' then normalize acc ss
      else if s = js ''..'' then normalize (butlast acc) ss
      else normalize (acc @ [s]) ss)"

definition path_resolve :: "path \<Rightarrow> jsstring \<Rightarrow> path" where
  "path_resolve base s =
     (if s \<noteq> [] \<and> hd s = 0x2F then normalize [] (segments [] s)
      else normalize base (segments [] s))"

text \<open>
  \<open>path.join(dir, name)\<close> where \<open>name\<close> is one directory entry (a name returned by
  \<open>readdirSync\<close>, or such a name with an extension appended): the entry below \<open>dir\<close>.
\<close>

definition path_join :: "path \<Rightarrow> name \<Rightarrow> path" where
  "path_join dir n = dir @ [n]"

definition path_dirname :: "path \<Rightarrow> path" where
  "path_dirname p = butlast p"

section \<open>The file system\<close>

text \<open>
  A directory lists its entries in the order \<open>readdirSync\<close> returns them.  There are no
  links: a path names at most one node.
\<close>

datatype node = File "byte list" | Dir "(name \<times> node) list"

datatype errno = ENOENT | ENOTDIR | EISDIR | EEXIST | EACCES | ENOSPC | EIO

fun resolve :: "node \<Rightarrow> path \<Rightarrow> errno + node" where
  "resolve t [] = Inr t"
| "resolve (File b) (n # p) = Inl ENOTDIR"
| "resolve (Dir es) (n # p) =
     (case map_of es n of None \<Rightarrow> Inl ENOENT | Some c \<Rightarrow> resolve c p)"

definition is_dir :: "node \<Rightarrow> path \<Rightarrow> bool" where
  "is_dir t p = (case resolve t p of Inr (Dir es) \<Rightarrow> True | _ \<Rightarrow> False)"

definition file_at :: "node \<Rightarrow> path \<Rightarrow> byte list option" where
  "file_at t p = (case resolve t p of Inr (File b) \<Rightarrow> Some b | _ \<Rightarrow> None)"

text \<open>
  Writing a file: the parent must be a directory and the path must not be one; an
  existing file is replaced where it stands, a new one is entered last.
\<close>

fun write_at :: "node \<Rightarrow> path \<Rightarrow> byte list \<Rightarrow> errno + node" where
  "write_at (File old) [] b = Inr (File b)"
| "write_at (Dir es) [] b = Inl EISDIR"
| "write_at (File old) (n # p) b = Inl ENOTDIR"
| "write_at (Dir es) (n # p) b =
     (case map_of es n of
        None \<Rightarrow> (if p = [] then Inr (Dir (AList.update n (File b) es)) else Inl ENOENT)
      | Some c \<Rightarrow>
          (case write_at c p b of
             Inl e \<Rightarrow> Inl e
           | Inr c' \<Rightarrow> Inr (Dir (AList.update n c' es))))"

text \<open>\<open>mkdir\<close> with \<open>recursive: true\<close>: every missing directory of the path is made.\<close>

fun mkdir_p :: "node \<Rightarrow> path \<Rightarrow> errno + node" where
  "mkdir_p (Dir es) [] = Inr (Dir es)"
| "mkdir_p (File b) [] = Inl EEXIST"
| "mkdir_p (File b) (n # p) = Inl ENOTDIR"
| "mkdir_p (Dir es) (n # p) =
     (case mkdir_p (case map_of es n of None \<Rightarrow> Dir [] | Some c \<Rightarrow> c) p of
        Inl e \<Rightarrow> Inl e
      | Inr c' \<Rightarrow> Inr (Dir (AList.update n c' es)))"

text \<open>
  The calls of Node's \<open>fs\<close> module.  A call may also fail for a reason the tree does
  not show (permissions, a full disk, a device error); \<open>F\<close> says which calls do, and
  with which error.  \<open>existsSync\<close> never throws: it answers \<open>false\<close> when the path
  names nothing and also when the check itself fails.
\<close>

datatype fs_call =
    ExistsSync path | MkdirSync path | ReaddirSync path | StatSync path | ReadFileSync path
  | WriteFileSync path

type_synonym faults = "fs_call \<Rightarrow> errno option"

definition exists_at :: "node \<Rightarrow> path \<Rightarrow> bool" where
  "exists_at t p = (case resolve t p of Inr x \<Rightarrow> True | Inl e \<Rightarrow> False)"

definition existsSync :: "faults \<Rightarrow> node \<Rightarrow> path \<Rightarrow> bool" where
  "existsSync F t p = (case F (ExistsSync p) of Some e \<Rightarrow> False | None \<Rightarrow> exists_at t p)"

definition mkdirSync_recursive :: "faults \<Rightarrow> node \<Rightarrow> path \<Rightarrow> errno + node" where
  "mkdirSync_recursive F t p =
     (case F (MkdirSync p) of Some e \<Rightarrow> Inl e | None \<Rightarrow> mkdir_p t p)"

definition readdirSync :: "faults \<Rightarrow> node \<Rightarrow> path \<Rightarrow> errno + name list" where
  "readdirSync F t p =
     (case F (ReaddirSync p) of
        Some e \<Rightarrow> Inl e
      | None \<Rightarrow>
          (case resolve t p of
             Inl e \<Rightarrow> Inl e
           | Inr (File b) \<Rightarrow> Inl ENOTDIR
           | Inr (Dir es) \<Rightarrow> Inr (map fst es)))"

text \<open>\<open>fs.statSync(p).isDirectory()\<close>\<close>

definition statSync_isDirectory :: "faults \<Rightarrow> node \<Rightarrow> path \<Rightarrow> errno + bool" where
  "statSync_isDirectory F t p =
     (case F (StatSync p) of
        Some e \<Rightarrow> Inl e
      | None \<Rightarrow>
          (case resolve t p of
             Inl e \<Rightarrow> Inl e
           | Inr (File b) \<Rightarrow> Inr False
           | Inr (Dir es) \<Rightarrow> Inr True))"

section \<open>UTF-8\<close>

text \<open>
  \<open>readFileSync(p, 'utf-8')\<close> decodes the bytes of the file into a string and
  \<open>writeFileSync(p, s)\<close> encodes the string again.  The decoder puts U+FFFD in the place
  of every maximal ill-formed part of the input; the encoder puts its three bytes in
  the place of an unpaired surrogate.
\<close>

definition units_of_cp :: "nat \<Rightarrow> jsstring" where
  "units_of_cp cp =
     (if cp < 0x10000 then [of_nat cp]
      else [of_nat (0xD800 + (cp - 0x10000) div 1024), of_nat (0xDC00 + (cp - 0x10000) mod 1024)])"

definition in_range :: "nat \<Rightarrow> nat \<Rightarrow> byte \<Rightarrow> bool" where
  "in_range lo hi b \<longleftrightarrow> lo \<le> unat b \<and> unat b \<le> hi"

definition second_lo :: "nat \<Rightarrow> nat" where
  "second_lo b = (if b = 0xE0 then 0xA0 else if b = 0xF0 then 0x90 else 0x80)"

definition second_hi :: "nat \<Rightarrow> nat" where
  "second_hi b = (if b = 0xED then 0x9F else if b = 0xF4 then 0x8F else 0xBF)"

fun utf8_decode :: "byte list \<Rightarrow> jsstring" where
  "utf8_decode [] = []"
| "utf8_decode (b # bs) =
     (let n = unat b in
      if n < 0x80 then of_nat n # utf8_decode bs
      else if 0xC2 \<le> n \<and> n \<le> 0xDF then
        (case bs of
           [] \<Rightarrow> [0xFFFD]
         | c # cs \<Rightarrow>
             if in_range 0x80 0xBF c
             then of_nat ((n mod 32) * 64 + unat c mod 64) # utf8_decode cs
             else 0xFFFD # utf8_decode bs)
      else if 0xE0 \<le> n \<and> n \<le> 0xEF then
        (case bs of
           [] \<Rightarrow> [0xFFFD]
         | c # cs \<Rightarrow>
             if in_range (second_lo n) (second_hi n) c then
               (case cs of
                  [] \<Rightarrow> [0xFFFD]
                | d # ds \<Rightarrow>
                    if in_range 0x80 0xBF d
                    then of_nat ((n mod 16) * 4096 + (unat c mod 64) * 64 + unat d mod 64)
                           # utf8_decode ds
                    else 0xFFFD # utf8_decode cs)
             else 0xFFFD # utf8_decode bs)
      else if 0xF0 \<le> n \<and> n \<le> 0xF4 then
        (case bs of
           [] \<Rightarrow> [0xFFFD]
         | c # cs \<Rightarrow>
             if in_range (second_lo n) (second_hi n) c then
               (case cs of
                  [] \<Rightarrow> [0xFFFD]
                | d # ds \<Rightarrow>
                    if in_range 0x80 0xBF d then
                      (case ds of
                         [] \<Rightarrow> [0xFFFD]
                       | e # es \<Rightarrow>
                           if in_range 0x80 0xBF e
                           then units_of_cp ((n mod 8) * 262144 + (unat c mod 64) * 4096
                                             + (unat d mod 64) * 64 + unat e mod 64)
                                  @ utf8_decode es
                           else 0xFFFD # utf8_decode ds)
                    else 0xFFFD # utf8_decode cs)
             else 0xFFFD # utf8_decode bs)
      else 0xFFFD # utf8_decode bs)"

definition encode_cp :: "nat \<Rightarrow> byte list" where
  "encode_cp cp =
     (if cp < 0x80 then [of_nat cp]
      else if cp < 0x800 then [of_nat (0xC0 + cp div 64), of_nat (0x80 + cp mod 64)]
      else if cp < 0x10000 then
        [of_nat (0xE0 + cp div 4096), of_nat (0x80 + (cp div 64) mod 64), of_nat (0x80 + cp mod 64)]
      else
        [of_nat (0xF0 + cp div 262144), of_nat (0x80 + (cp div 4096) mod 64),
         of_nat (0x80 + (cp div 64) mod 64), of_nat (0x80 + cp mod 64)])"

fun utf8_encode :: "jsstring \<Rightarrow> byte list" where
  "utf8_encode [] = []"
| "utf8_encode (u # us) =
     (let n = unat u in
      if 0xD800 \<le> n \<and> n \<le> 0xDBFF then
        (case us of
           [] \<Rightarrow> encode_cp 0xFFFD
         | l # rest \<Rightarrow>
             if 0xDC00 \<le> unat l \<and> unat l \<le> 0xDFFF
             then encode_cp (0x10000 + (n - 0xD800) * 1024 + (unat l - 0xDC00)) @ utf8_encode rest
             else encode_cp 0xFFFD @ utf8_encode us)
      else if 0xDC00 \<le> n \<and> n \<le> 0xDFFF then encode_cp 0xFFFD @ utf8_encode us
      else encode_cp n @ utf8_encode us)"

text \<open>The byte sequences that are UTF-8 (table 3-7 of the Unicode standard).\<close>

fun well_formed_utf8 :: "byte list \<Rightarrow> bool" where
  "well_formed_utf8 [] = True"
| "well_formed_utf8 (b # bs) =
     (let n = unat b in
      if n < 0x80 then well_formed_utf8 bs
      else if 0xC2 \<le> n \<and> n \<le> 0xDF then
        (case bs of
           c # cs \<Rightarrow> in_range 0x80 0xBF c \<and> well_formed_utf8 cs
         | _ \<Rightarrow> False)
      else if 0xE0 \<le> n \<and> n \<le> 0xEF then
        (case bs of
           c # d # ds \<Rightarrow>
             in_range (second_lo n) (second_hi n) c \<and> in_range 0x80 0xBF d \<and> well_formed_utf8 ds
         | _ \<Rightarrow> False)
      else if 0xF0 \<le> n \<and> n \<le> 0xF4 then
        (case bs of
           c # d # e # es \<Rightarrow>
             in_range (second_lo n) (second_hi n) c \<and> in_range 0x80 0xBF d
             \<and> in_range 0x80 0xBF e \<and> well_formed_utf8 es
         | _ \<Rightarrow> False)
      else False)"

definition readFileSync_utf8 :: "faults \<Rightarrow> node \<Rightarrow> path \<Rightarrow> errno + jsstring" where
  "readFileSync_utf8 F t p =
     (case F (ReadFileSync p) of
        Some e \<Rightarrow> Inl e
      | None \<Rightarrow>
          (case resolve t p of
             Inl e \<Rightarrow> Inl e
           | Inr (Dir es) \<Rightarrow> Inl EISDIR
           | Inr (File b) \<Rightarrow> Inr (utf8_decode b)))"

definition writeFileSync :: "faults \<Rightarrow> node \<Rightarrow> path \<Rightarrow> jsstring \<Rightarrow> errno + node" where
  "writeFileSync F t p s =
     (case F (WriteFileSync p) of Some e \<Rightarrow> Inl e | None \<Rightarrow> write_at t p (utf8_encode s))"

section \<open>The primary script\<close>

record world =
  root :: node
  stdout :: "jsstring list"

record script_state = world +
  middlewareList :: "name list"

definition console_log :: "jsstring \<Rightarrow> 'a world_scheme \<Rightarrow> 'a world_scheme" where
  "console_log line w = w\<lparr>stdout := stdout w @ [line]\<rparr>"

definition sourceDir :: path where
  "sourceDir = path_resolve []
     (js ''/Users/arthur/Documents/personal/goryudoc/documentation/middleware'')"

definition targetDir :: path where
  "targetDir = path_resolve [] (js ''/Users/arthur/Documents/personal/goryudoc/docs/middleware'')"

definition configPath :: path where
  "configPath = path_resolve []
     (js ''/Users/arthur/Documents/personal/goryudoc/docs/.vitepress/config.mts'')"

text \<open>
  \<open>if (!fs.existsSync(dir)) fs.mkdirSync(dir, { recursive: true })\<close>, the opening of
  the primary script and of every round of the secondary one.
\<close>

definition ensure_dir :: "faults \<Rightarrow> node \<Rightarrow> path \<Rightarrow> errno + node" where
  "ensure_dir F t dir = (if \<not> existsSync F t dir then mkdirSync_recursive F t dir else Inr t)"

text \<open>
  The body of \<open>middlewares.forEach\<close>.  The result is the exception thrown, if any, and
  the state in which the body stopped.
\<close>

definition migrate_mw :: "faults \<Rightarrow> name \<Rightarrow> script_state \<Rightarrow> errno option \<times> script_state" where
  "migrate_mw F mw s =
     (let mwPath = path_join sourceDir mw in
      case statSync_isDirectory F (root s) mwPath of
        Inl e \<Rightarrow> (Some e, s)
      | Inr isDirectory \<Rightarrow>
          if isDirectory then
            (let readmePath = path_join mwPath (js ''README.md'') in
             if existsSync F (root s) readmePath then
               (case readFileSync_utf8 F (root s) readmePath of
                  Inl e \<Rightarrow> (Some e, s)
                | Inr content \<Rightarrow>
                    (let targetPath = path_join targetDir (mw @ js ''.md'') in
                     case writeFileSync F (root s) targetPath content of
                       Inl e \<Rightarrow> (Some e, s)
                     | Inr r \<Rightarrow>
                         (None, (console_log (js ''Migrated '' @ mw) (s\<lparr>root := r\<rparr>))
                                  \<lparr>middlewareList := middlewareList s @ [mw]\<rparr>)))
             else (None, s))
          else (None, s))"

fun forEach_mw :: "faults \<Rightarrow> name list \<Rightarrow> script_state \<Rightarrow> errno option \<times> script_state" where
  "forEach_mw F [] s = (None, s)"
| "forEach_mw F (mw # mws) s =
     (case migrate_mw F mw s of
        (Some e, s') \<Rightarrow> (Some e, s')
      | (None, s') \<Rightarrow> forEach_mw F mws s')"

definition nl :: jsstring where
  "nl = [0x0A]"

definition index_heading :: jsstring where
  "index_heading =
     js ''# Middleware'' @ nl @ nl
     @ js ''Goryu comes with a rich set of built-in middlewares.'' @ nl @ nl
     @ js ''## Available Middleware'' @ nl @ nl"

definition index_link :: "name \<Rightarrow> jsstring" where
  "index_link mw = js ''- ['' @ mw @ js ''](/middleware/'' @ mw @ js '')''"

definition indexContent :: "name list \<Rightarrow> jsstring" where
  "indexContent list = index_heading @ join nl (map index_link list) @ nl"

text \<open>
  \<open>JSON.stringify\<close> of an array of strings: the quoted strings, separated by commas,
  between brackets.  Quoting escapes the quote, the backslash, the control characters
  and unpaired surrogates.
\<close>

definition hex_digit :: "nat \<Rightarrow> 16 word" where
  "hex_digit d = (if d < 10 then of_nat (0x30 + d) else of_nat (0x57 + d))"

definition unicode_escape :: "16 word \<Rightarrow> jsstring" where
  "unicode_escape u =
     (let n = unat u in
      [0x5C, 0x75, hex_digit (n div 4096), hex_digit (n div 256 mod 16),
       hex_digit (n div 16 mod 16), hex_digit (n mod 16)])"

definition quote_unit :: "16 word \<Rightarrow> jsstring" where
  "quote_unit u =
     (if u = 0x08 then [0x5C, 0x62]
      else if u = 0x09 then [0x5C, 0x74]
      else if u = 0x0A then [0x5C, 0x6E]
      else if u = 0x0C then [0x5C, 0x66]
      else if u = 0x0D then [0x5C, 0x72]
      else if u = 0x22 then [0x5C, 0x22]
      else if u = 0x5C then [0x5C, 0x5C]
      else if unat u < 0x20 then unicode_escape u
      else [u])"

fun quote_units :: "jsstring \<Rightarrow> jsstring" where
  "quote_units [] = []"
| "quote_units (u # us) =
     (let n = unat u in
      if 0xD800 \<le> n \<and> n \<le> 0xDBFF then
        (case us of
           [] \<Rightarrow> unicode_escape u
         | l # rest \<Rightarrow>
             if 0xDC00 \<le> unat l \<and> unat l \<le> 0xDFFF then u # l # quote_units rest
             else unicode_escape u @ quote_units us)
      else if 0xDC00 \<le> n \<and> n \<le> 0xDFFF then unicode_escape u @ quote_units us
      else quote_unit u @ quote_units us)"

definition quote_json :: "jsstring \<Rightarrow> jsstring" where
  "quote_json s = [0x22] @ quote_units s @ [0x22]"

definition JSON_stringify :: "jsstring list \<Rightarrow> jsstring" where
  "JSON_stringify xs = js ''['' @ join (js '','') (map quote_json xs) @ js '']''"

text \<open>
  Lines 7 to 39, from a file system \<open>t\<close> and with nothing printed yet: the target
  directory, the copies and the index page.  The result is the exception that stopped
  the script, or none, and the state reached.
\<close>

definition write_pages :: "faults \<Rightarrow> node \<Rightarrow> errno option \<times> script_state" where
  "write_pages F t =
     (let s0 = \<lparr>root = t, stdout = [], middlewareList = []\<rparr> in
      case ensure_dir F t targetDir of
        Inl e \<Rightarrow> (Some e, s0)
      | Inr r1 \<Rightarrow>
          (let s1 = s0\<lparr>root := r1\<rparr> in
           case readdirSync F r1 sourceDir of
             Inl e \<Rightarrow> (Some e, s1)
           | Inr middlewares \<Rightarrow>
               (case forEach_mw F middlewares s1 of
                  (Some e, s2) \<Rightarrow> (Some e, s2)
                | (None, s2) \<Rightarrow>
                    (case writeFileSync F (root s2) (path_join targetDir (js ''index.md''))
                            (indexContent (middlewareList s2)) of
                       Inl e \<Rightarrow> (Some e, s2)
                     | Inr r3 \<Rightarrow> (None, s2\<lparr>root := r3\<rparr>)))))"

text \<open>The whole script: lines 41 to 65 follow, the read of the configuration and the two prints.\<close>

definition migrate :: "faults \<Rightarrow> node \<Rightarrow> errno option \<times> script_state" where
  "migrate F t =
     (case write_pages F t of
        (Some e, s) \<Rightarrow> (Some e, s)
      | (None, s3) \<Rightarrow>
          (case readFileSync_utf8 F (root s3) configPath of
             Inl e \<Rightarrow> (Some e, s3)
           | Inr configContent \<Rightarrow>
               (None,
                console_log (JSON_stringify (middlewareList s3))
                  (console_log (js ''Middleware List for Sidebar:'') s3))))"

text \<open>
  Lines 45 to 55 bind \<open>sidebarItems\<close> and \<open>newSidebarSection\<close>; no later statement reads
  them.  \<open>toUpperCase\<close> is the case mapping of the runtime, on the string
  \<open>mw.charAt(0)\<close>.
\<close>

definition sq :: jsstring where
  "sq = [0x27]"

definition sidebar_item :: "(jsstring \<Rightarrow> jsstring) \<Rightarrow> name \<Rightarrow> jsstring" where
  "sidebar_item toUpperCase mw =
     js ''            { text: '' @ sq @ toUpperCase (take 1 mw) @ drop 1 mw @ sq
     @ js '', link: '' @ sq @ js ''/middleware/'' @ mw @ sq @ js '' },''"

definition sidebarItems :: "(jsstring \<Rightarrow> jsstring) \<Rightarrow> name list \<Rightarrow> jsstring" where
  "sidebarItems toUpperCase list = join nl (map (sidebar_item toUpperCase) list)"

definition newSidebarSection :: "(jsstring \<Rightarrow> jsstring) \<Rightarrow> name list \<Rightarrow> jsstring" where
  "newSidebarSection toUpperCase list =
     js ''      '' @ sq @ js ''/middleware/'' @ sq @ js '': ['' @ nl
     @ js ''        {'' @ nl
     @ js ''          text: '' @ sq @ js ''Middleware'' @ sq @ js '','' @ nl
     @ js ''          items: ['' @ nl
     @ js ''            { text: '' @ sq @ js ''Overview'' @ sq @ js '', link: '' @ sq
         @ js ''/middleware/'' @ sq @ js '' },'' @ nl
     @ sidebarItems toUpperCase list @ nl
     @ js ''          ]'' @ nl
     @ js ''        }'' @ nl
     @ js ''      ],''"

section \<open>The secondary script\<close>

record mapping =
  src :: jsstring
  dest :: jsstring

definition mappings :: "mapping list" where
  "mappings =
     [\<lparr>src = js ''documentation/client/README.md'', dest = js ''docs/core/client.md''\<rparr>,
      \<lparr>src = js ''documentation/config/README.md'', dest = js ''docs/core/config.md''\<rparr>,
      \<lparr>src = js ''documentation/db/README.md'', dest = js ''docs/core/db.md''\<rparr>,
      \<lparr>src = js ''documentation/goryuctx/README.md'', dest = js ''docs/core/context.md''\<rparr>,
      \<lparr>src = js ''documentation/monitoring/README.md'', dest = js ''docs/monitoring/index.md''\<rparr>,
      \<lparr>src = js ''documentation/monitoring/UI_README.md'', dest = js ''docs/monitoring/ui.md''\<rparr>,
      \<lparr>src = js ''documentation/plugins/README.md'', dest = js ''docs/plugins/index.md''\<rparr>,
      \<lparr>src = js ''documentation/router/builder/README.md'', dest = js ''docs/router/builder.md''\<rparr>,
      \<lparr>src = js ''documentation/tutorial.md'', dest = js ''docs/guide/tutorial.md''\<rparr>,
      \<lparr>src = js ''documentation/route/README.md'', dest = js ''docs/router/route.md''\<rparr>]"

definition project_root :: path where
  "project_root = path_resolve [] (js ''/Users/arthur/Documents/personal/goryudoc'')"

text \<open>The body of \<open>mappings.forEach\<close>.\<close>

definition copy_mapping :: "faults \<Rightarrow> mapping \<Rightarrow> world \<Rightarrow> errno option \<times> world" where
  "copy_mapping F m w =
     (let srcPath = path_resolve project_root (src m);
          destPath = path_resolve project_root (dest m);
          destDir = path_dirname destPath in
      case ensure_dir F (root w) destDir of
        Inl e \<Rightarrow> (Some e, w)
      | Inr r1 \<Rightarrow>
          (let w1 = w\<lparr>root := r1\<rparr> in
           if existsSync F r1 srcPath then
             (case readFileSync_utf8 F r1 srcPath of
                Inl e \<Rightarrow> (Some e, w1)
              | Inr content \<Rightarrow>
                  (case writeFileSync F r1 destPath content of
                     Inl e \<Rightarrow> (Some e, w1)
                   | Inr r2 \<Rightarrow>
                       (None,
                        console_log (js ''Migrated '' @ src m @ js '' -> '' @ dest m)
                          (w1\<lparr>root := r2\<rparr>))))
           else (None, console_log (js ''WARNING: Source not found: '' @ src m) w1)))"

fun forEach_mapping :: "faults \<Rightarrow> mapping list \<Rightarrow> world \<Rightarrow> errno option \<times> world" where
  "forEach_mapping F [] w = (None, w)"
| "forEach_mapping F (m # ms) w =
     (case copy_mapping F m w of
        (Some e, w') \<Rightarrow> (Some e, w')
      | (None, w') \<Rightarrow> forEach_mapping F ms w')"

definition migrate_remaining :: "faults \<Rightarrow> node \<Rightarrow> errno option \<times> world" where
  "migrate_remaining F t = forEach_mapping F mappings \<lparr>root = t, stdout = []\<rparr>"

section \<open>Auxiliary notions\<close>

text \<open>A path \<open>q\<close> lies outside \<open>d\<close>: neither is the other or above it.\<close>

definition outside :: "path \<Rightarrow> path \<Rightarrow> bool" where
  "outside d q \<longleftrightarrow> \<not> prefix q d \<and> \<not> prefix d q"

text \<open>The two tests that guard the copy in the body of \<open>middlewares.forEach\<close>.\<close>

definition has_readme :: "faults \<Rightarrow> node \<Rightarrow> name \<Rightarrow> bool" where
  "has_readme F t mw \<longleftrightarrow>
     is_dir t (path_join sourceDir mw)
     \<and> existsSync F t (path_join (path_join sourceDir mw) (js ''README.md''))"

text \<open>Example file systems: a project with the topics \<open>auth\<close> (with a README) and \<open>empty\<close>.\<close>

definition ascii :: "string \<Rightarrow> byte list" where
  "ascii s = map (\<lambda>c. of_nat (of_char c)) s"

definition in_dirs :: "name list \<Rightarrow> node \<Rightarrow> node" where
  "in_dirs ns t = foldr (\<lambda>n c. Dir [(n, c)]) ns t"

definition project :: "(name \<times> node) list \<Rightarrow> node" where
  "project es =
     in_dirs [js ''Users'', js ''arthur'', js ''Documents'', js ''personal'', js ''goryudoc''] (Dir es)"

definition config_dir :: "name \<times> node" where
  "config_dir = (js ''.vitepress'', Dir [(js ''config.mts'', File (ascii ''export default {}''))])"

definition auth_topics :: "name \<times> node" where
  "auth_topics =
     (js ''documentation'', Dir [(js ''middleware'',
        Dir [(js ''auth'', Dir [(js ''README.md'', File (ascii ''# Auth''))]),
             (js ''empty'', Dir [])])])"

text \<open>The bytes of the heading of the index page, and of a line of the page.\<close>

definition heading_bytes :: "byte list" where
  "heading_bytes =
     ascii ''# Middleware'' @ [0x0A, 0x0A]
     @ ascii ''Goryu comes with a rich set of built-in middlewares.'' @ [0x0A, 0x0A]
     @ ascii ''## Available Middleware'' @ [0x0A, 0x0A]"

definition line_bytes :: "string \<Rightarrow> byte list" where
  "line_bytes s = ascii s @ [0x0A]"

definition example_tree :: node where
  "example_tree = project [auth_topics, (js ''docs'', Dir [config_dir])]"

definition example_final :: script_state where
  "example_final =
     \<lparr>root = project
        [auth_topics,
         (js ''docs'', Dir [config_dir,
            (js ''middleware'',
             Dir [(js ''auth.md'', File (ascii ''# Auth'')),
                  (js ''index.md'',
                   File (heading_bytes @ line_bytes ''- [auth](/middleware/auth)''))])])],
      stdout = [js ''Migrated auth'', js ''Middleware List for Sidebar:'', js ''[\"auth\"]''],
      middlewareList = [js ''auth'']\<rparr>"

text \<open>A project with two topics, after an earlier migration left pages behind.\<close>

definition two_topics :: "name \<times> node" where
  "two_topics =
     (js ''documentation'', Dir [(js ''middleware'',
        Dir [(js ''auth'', Dir [(js ''README.md'', File (ascii ''# Auth''))]),
             (js ''cors'', Dir [(js ''README.md'', File (ascii ''# CORS''))]),
             (js ''empty'', Dir [])])])"

definition stale_tree :: node where
  "stale_tree = project
     [two_topics,
      (js ''docs'', Dir [config_dir,
         (js ''middleware'', Dir [(js ''index.md'', File (ascii ''stale'')),
                                  (js ''auth.md'', File (ascii ''old''))])])]"

definition stale_final :: script_state where
  "stale_final =
     \<lparr>root = project
        [two_topics,
         (js ''docs'', Dir [config_dir,
            (js ''middleware'',
             Dir [(js ''index.md'',
                   File (heading_bytes @ line_bytes ''- [auth](/middleware/auth)''
                         @ line_bytes ''- [cors](/middleware/cors)'')),
                  (js ''auth.md'', File (ascii ''# Auth'')),
                  (js ''cors.md'', File (ascii ''# CORS''))])])],
      stdout = [js ''Migrated auth'', js ''Migrated cors'', js ''Middleware List for Sidebar:'',
                js ''[\"auth\",\"cors\"]''],
      middlewareList = [js ''auth'', js ''cors'']\<rparr>"

text \<open>
  A project whose topic \<open>cafe\<close> has a README that ends in the single byte \<open>E9\<close> (the
  letter e with an acute accent in Latin-1), and whose topic \<open>index\<close> has a README.
\<close>

definition clash_topics :: "name \<times> node" where
  "clash_topics =
     (js ''documentation'', Dir [(js ''middleware'',
        Dir [(js ''cafe'', Dir [(js ''README.md'', File [0x63, 0x61, 0x66, 0xE9])]),
             (js ''index'', Dir [(js ''README.md'', File (ascii ''# Index topic''))])])])"

definition clash_tree :: node where
  "clash_tree = project [clash_topics, (js ''docs'', Dir [config_dir])]"

definition clash_final :: script_state where
  "clash_final =
     \<lparr>root = project
        [clash_topics,
         (js ''docs'', Dir [config_dir,
            (js ''middleware'',
             Dir [(js ''cafe.md'', File [0x63, 0x61, 0x66, 0xEF, 0xBF, 0xBD]),
                  (js ''index.md'',
                   File (heading_bytes @ line_bytes ''- [cafe](/middleware/cafe)''
                         @ line_bytes ''- [index](/middleware/index)''))])])],
      stdout = [js ''Migrated cafe'', js ''Migrated index'', js ''Middleware List for Sidebar:'',
                js ''[\"cafe\",\"index\"]''],
      middlewareList = [js ''cafe'', js ''index'']\<rparr>"

text \<open>
  A project with a directory \<open>index\<close> that has no README and two topics with one; and an
  environment in which the README of \<open>locked\<close> cannot be reached, so that the check of
  \<open>existsSync\<close> fails there.
\<close>

definition locked_topics :: "name \<times> node" where
  "locked_topics =
     (js ''documentation'', Dir [(js ''middleware'',
        Dir [(js ''index'', Dir []),
             (js ''locked'', Dir [(js ''README.md'', File (ascii ''# Locked''))]),
             (js ''open'', Dir [(js ''README.md'', File (ascii ''# Open''))])])])"

definition locked_tree :: node where
  "locked_tree = project [locked_topics, (js ''docs'', Dir [config_dir])]"

definition readme_hidden :: faults where
  "readme_hidden =
     (\<lambda>c. if c = ExistsSync (sourceDir @ [js ''locked'', js ''README.md'']) then Some EACCES
          else None)"

definition locked_final :: script_state where
  "locked_final =
     \<lparr>root = project
        [locked_topics,
         (js ''docs'', Dir [config_dir,
            (js ''middleware'',
             Dir [(js ''open.md'', File (ascii ''# Open'')),
                  (js ''index.md'',
                   File (heading_bytes @ line_bytes ''- [open](/middleware/open)''))])])],
      stdout = [js ''Migrated open'', js ''Middleware List for Sidebar:'', js ''[\"open\"]''],
      middlewareList = [js ''open'']\<rparr>"

text \<open>\<open>toUpperCase\<close> on a string of ASCII characters, for the examples.\<close>

definition ascii_toUpperCase :: "jsstring \<Rightarrow> jsstring" where
  "ascii_toUpperCase s = map (\<lambda>u. if 0x61 \<le> u \<and> u \<le> 0x7A then u - 0x20 else u) s"

text \<open>A project without the directory \<open>docs\<close>, and the state after lines 7 to 39 there.\<close>

definition no_config_tree :: node where
  "no_config_tree = project [auth_topics]"

definition no_config_pages :: script_state where
  "no_config_pages =
     \<lparr>root = project
        [auth_topics,
         (js ''docs'', Dir [(js ''middleware'',
             Dir [(js ''auth.md'', File (ascii ''# Auth'')),
                  (js ''index.md'',
                   File (heading_bytes @ line_bytes ''- [auth](/middleware/auth)''))])])],
      stdout = [js ''Migrated auth''],
      middlewareList = [js ''auth'']\<rparr>"

text \<open>
  A project whose second topic has a directory in the place of its README, and the state
  in which the run stops there; and an environment that refuses to list the source
  directory.
\<close>

definition broken_topics :: "name \<times> node" where
  "broken_topics =
     (js ''documentation'', Dir [(js ''middleware'',
        Dir [(js ''auth'', Dir [(js ''README.md'', File (ascii ''# Auth''))]),
             (js ''cors'', Dir [(js ''README.md'', Dir [])])])])"

definition broken_tree :: node where
  "broken_tree = project [broken_topics, (js ''docs'', Dir [config_dir])]"

definition broken_stopped :: script_state where
  "broken_stopped =
     \<lparr>root = project
        [broken_topics,
         (js ''docs'', Dir [config_dir,
            (js ''middleware'', Dir [(js ''auth.md'', File (ascii ''# Auth''))])])],
      stdout = [js ''Migrated auth''],
      middlewareList = [js ''auth'']\<rparr>"

definition listing_denied :: faults where
  "listing_denied = (\<lambda>c. if c = ReaddirSync sourceDir then Some EACCES else None)"

text \<open>The example projects once the target directory is made.\<close>

definition example_prepared :: node where
  "example_prepared = project [auth_topics, (js ''docs'', Dir [config_dir, (js ''middleware'', Dir [])])]"

definition broken_prepared :: node where
  "broken_prepared = project [broken_topics, (js ''docs'', Dir [config_dir, (js ''middleware'', Dir [])])]"

text \<open>
  For the secondary script: a project that has the tutorial but no \<open>documentation/db\<close>, and
  neither \<open>docs/guide\<close> nor \<open>docs/core\<close>; one whose tutorial ends in the byte \<open>E9\<close>; and
  one in which \<open>docs\<close> is a file.
\<close>

definition tutorial_mapping :: mapping where
  "tutorial_mapping = \<lparr>src = js ''documentation/tutorial.md'', dest = js ''docs/guide/tutorial.md''\<rparr>"

definition db_mapping :: mapping where
  "db_mapping = \<lparr>src = js ''documentation/db/README.md'', dest = js ''docs/core/db.md''\<rparr>"

definition remaining_tree :: node where
  "remaining_tree = project
     [(js ''documentation'', Dir [(js ''tutorial.md'', File (ascii ''# Tutorial''))]),
      (js ''docs'', Dir [])]"

definition remaining_guide :: node where
  "remaining_guide = project
     [(js ''documentation'', Dir [(js ''tutorial.md'', File (ascii ''# Tutorial''))]),
      (js ''docs'', Dir [(js ''guide'', Dir [])])]"

definition remaining_copied :: node where
  "remaining_copied = project
     [(js ''documentation'', Dir [(js ''tutorial.md'', File (ascii ''# Tutorial''))]),
      (js ''docs'', Dir [(js ''guide'', Dir [(js ''tutorial.md'', File (ascii ''# Tutorial''))])])]"

definition remaining_final :: world where
  "remaining_final =
     \<lparr>root = project
        [(js ''documentation'', Dir [(js ''tutorial.md'', File (ascii ''# Tutorial''))]),
         (js ''docs'', Dir [(js ''guide'', Dir [(js ''tutorial.md'', File (ascii ''# Tutorial''))]),
                            (js ''core'', Dir [])])],
      stdout = [js ''Migrated documentation/tutorial.md -> docs/guide/tutorial.md'',
                js ''WARNING: Source not found: documentation/db/README.md'']\<rparr>"

definition latin1_tree :: node where
  "latin1_tree = project
     [(js ''documentation'', Dir [(js ''tutorial.md'', File [0x63, 0x61, 0x66, 0xE9])]),
      (js ''docs'', Dir [(js ''guide'', Dir [])])]"

definition blocked_tree :: node where
  "blocked_tree = project [(js ''documentation'', Dir []), (js ''docs'', File [])]"

definition tutorial_hidden :: faults where
  "tutorial_hidden =
     (\<lambda>c. if c = ExistsSync (project_root @ [js ''documentation'', js ''tutorial.md''])
          then Some EACCES else None)"

definition no_faults :: faults where
  "no_faults = (\<lambda>c. None)"

section \<open>Facts about UTF-8\<close>

lemma mod_window:
  fixes n m k :: nat
  assumes "k * m \<le> n" "n < k * m + m"
  shows "n mod m = n - k * m"
proof -
  have "n = k * m + (n - k * m)" using assms by simp
  then have "n mod m = (k * m + (n - k * m)) mod m" by simp
  also have "\<dots> = (n - k * m) mod m" by (simp only: mod_mult_self3)
  also have "\<dots> = n - k * m" using assms by simp
  finally show ?thesis .
qed

lemma div_mod_digits:
  fixes q y m :: nat
  assumes "y < m"
  shows "(q * m + y) div m = q" and "(q * m + y) mod m = y"
  using assms by simp_all

lemma unat_unit: "n < 65536 \<Longrightarrow> unat (of_nat n :: 16 word) = n"
  by (simp add: unat_of_nat)

lemma m1: "192 \<le> n \<Longrightarrow> n \<le> 223 \<Longrightarrow> n mod 32 = n - (192::nat)"
  using mod_window[of 6 32 n] by simp
lemma m1b: "128 \<le> n \<Longrightarrow> n \<le> 191 \<Longrightarrow> n mod 64 = n - (128::nat)"
  using mod_window[of 2 64 n] by simp
lemma m1c: "224 \<le> n \<Longrightarrow> n \<le> 239 \<Longrightarrow> n mod 16 = n - (224::nat)"
  using mod_window[of 14 16 n] by simp
lemma m1d: "240 \<le> n \<Longrightarrow> n \<le> 247 \<Longrightarrow> n mod 8 = n - (240::nat)"
  using mod_window[of 30 8 n] by simp

lemma encode_unit:
  assumes "cp < 0x10000" "\<not> (0xD800 \<le> cp \<and> cp \<le> 0xDFFF)"
  shows "utf8_encode (of_nat cp # us) = encode_cp cp @ utf8_encode us"
proof -
  have u: "unat (of_nat cp :: 16 word) = cp" using assms(1) by (simp add: unat_unit)
  show ?thesis using assms(2) by (auto simp: u Let_def)
qed

lemma encode_pair:
  assumes "0x10000 \<le> cp" "cp \<le> 0x10FFFF"
  shows "utf8_encode (units_of_cp cp @ us) = encode_cp cp @ utf8_encode us"
proof -
  define r where "r = cp - 0x10000"
  define h where "h = 0xD800 + r div 1024"
  define l where "l = 0xDC00 + r mod 1024"
  have r: "r < 0x100000" using assms by (simp add: r_def)
  have rd: "r div 1024 < 1024" using r by linarith
  have rm: "r mod 1024 < 1024" by simp
  have h: "0xD800 \<le> h" "h \<le> 0xDBFF" "h < 65536" using rd by (simp_all add: h_def)
  have l: "0xDC00 \<le> l" "l \<le> 0xDFFF" "l < 65536" using rm by (simp_all add: l_def)
  have uh: "unat (of_nat h :: 16 word) = h" using h(3) by (rule unat_unit)
  have ul: "unat (of_nat l :: 16 word) = l" using l(3) by (rule unat_unit)
  have "(h - 0xD800) * 1024 + (l - 0xDC00) = r div 1024 * 1024 + r mod 1024"
    by (simp add: h_def l_def)
  also have "\<dots> = r" by simp
  finally have recomb: "0x10000 + (h - 0xD800) * 1024 + (l - 0xDC00) = cp"
    using assms(1) by (simp add: r_def)
  have units: "units_of_cp cp = [of_nat h, of_nat l]"
    using assms(1) by (simp add: units_of_cp_def h_def l_def r_def)
  show ?thesis
    unfolding units using h(1,2) l(1,2) recomb by (simp add: uh ul Let_def)
qed


lemma byte_of_unat: "(of_nat (unat (b::byte)) :: byte) = b"
  by simp

lemma byte_bound: "unat (b::byte) < 256"
  using unsigned_less[of b, where ?'a = nat] by simp

lemma encode_one:
  assumes "unat b < 0x80"
  shows "encode_cp (unat (b::byte)) = [b]"
  using assms by (simp add: encode_cp_def)

lemma encode_two:
  fixes b c :: byte
  assumes "0xC2 \<le> unat b" "unat b \<le> 0xDF" "in_range 0x80 0xBF c"
  defines "cp \<equiv> (unat b mod 32) * 64 + unat c mod 64"
  shows "cp < 0x10000 \<and> \<not> (0xD800 \<le> cp \<and> cp \<le> 0xDFFF) \<and> encode_cp cp = [b, c]"
proof -
  define a where "a = unat b - 192"
  define x where "x = unat c - 128"
  have c: "128 \<le> unat c" "unat c \<le> 191" using assms(3) by (simp_all add: in_range_def)
  have a: "2 \<le> a" "a < 32" "192 + a = unat b" using assms(1,2) by (simp_all add: a_def)
  have x: "x < 64" "128 + x = unat c" using c by (simp_all add: x_def)
  have cp: "cp = a * 64 + x"
    using m1[of "unat b"] m1b[of "unat c"] assms(1,2) c by (simp add: cp_def a_def x_def)
  have d: "cp div 64 = a" "cp mod 64 = x" unfolding cp using x(1) by simp_all
  have r: "128 \<le> cp" "cp < 2048" unfolding cp using a x by linarith+
  show ?thesis using r by (simp add: encode_cp_def d a(3) x(2))
qed


lemma encode_three:
  fixes b c d :: byte
  assumes "0xE0 \<le> unat b" "unat b \<le> 0xEF"
    "in_range (second_lo (unat b)) (second_hi (unat b)) c" "in_range 0x80 0xBF d"
  defines "cp \<equiv> (unat b mod 16) * 4096 + (unat c mod 64) * 64 + unat d mod 64"
  shows "cp < 0x10000 \<and> \<not> (0xD800 \<le> cp \<and> cp \<le> 0xDFFF) \<and> encode_cp cp = [b, c, d]"
proof -
  define a where "a = unat b - 224"
  define x where "x = unat c - 128"
  define y where "y = unat d - 128"
  have c: "128 \<le> unat c" "unat c \<le> 191"
    using assms(3) by (auto simp: in_range_def second_lo_def second_hi_def split: if_splits)
  have d: "128 \<le> unat d" "unat d \<le> 191" using assms(4) by (simp_all add: in_range_def)
  have a: "a < 16" "224 + a = unat b" using assms(1,2) by (simp_all add: a_def)
  have x: "x < 64" "128 + x = unat c" using c by (simp_all add: x_def)
  have y: "y < 64" "128 + y = unat d" using d by (simp_all add: y_def)
  have lo: "a = 0 \<Longrightarrow> 32 \<le> x"
    using assms(1,3) by (auto simp: in_range_def second_lo_def a_def x_def split: if_splits)
  have hi: "a = 13 \<Longrightarrow> x < 32"
    using assms(1,3) by (auto simp: in_range_def second_hi_def a_def x_def split: if_splits)
  have cp: "cp = a * 4096 + x * 64 + y"
    using m1c[of "unat b"] m1b[of "unat c"] m1b[of "unat d"] assms(1,2) c d
    by (simp add: cp_def a_def x_def y_def)
  have d1: "cp div 4096 = a" unfolding cp using x(1) y(1) by linarith
  have d2: "cp div 64 = a * 64 + x" unfolding cp using y(1) by linarith
  have cp2: "cp = (a * 64 + x) * 64 + y" by (simp add: cp)
  have d3: "cp mod 64 = y" unfolding cp2 using y(1) by (rule div_mod_digits(2))
  have d4: "(a * 64 + x) mod 64 = x" using x(1) by (rule div_mod_digits(2))
  have r1: "2048 \<le> cp" unfolding cp using lo by (cases "a = 0") linarith+
  have r2: "cp < 65536" unfolding cp using a(1) x(1) y(1) by linarith
  have r3: "\<not> (0xD800 \<le> cp \<and> cp \<le> 0xDFFF)"
  proof (cases "a = 13")
    case True
    with hi x(1) y(1) show ?thesis unfolding cp by linarith
  next
    case False
    then show ?thesis unfolding cp using x(1) y(1) by linarith
  qed
  have n: "\<not> cp < 128" "\<not> cp < 2048" using r1 by linarith+
  have "encode_cp cp = [b, c, d]"
    by (simp only: encode_cp_def n r2 if_True if_False d1 d2 d3 d4 a(2) x(2) y(2) byte_of_unat)
  with r2 r3 show ?thesis by simp
qed

lemma encode_four:
  fixes b c d e :: byte
  assumes "0xF0 \<le> unat b" "unat b \<le> 0xF4"
    "in_range (second_lo (unat b)) (second_hi (unat b)) c" "in_range 0x80 0xBF d"
    "in_range 0x80 0xBF e"
  defines "cp \<equiv> (unat b mod 8) * 262144 + (unat c mod 64) * 4096 + (unat d mod 64) * 64
                   + unat e mod 64"
  shows "0x10000 \<le> cp \<and> cp \<le> 0x10FFFF \<and> encode_cp cp = [b, c, d, e]"
proof -
  define a where "a = unat b - 240"
  define x where "x = unat c - 128"
  define y where "y = unat d - 128"
  define z where "z = unat e - 128"
  have c: "128 \<le> unat c" "unat c \<le> 191"
    using assms(3) by (auto simp: in_range_def second_lo_def second_hi_def split: if_splits)
  have d: "128 \<le> unat d" "unat d \<le> 191" using assms(4) by (simp_all add: in_range_def)
  have e: "128 \<le> unat e" "unat e \<le> 191" using assms(5) by (simp_all add: in_range_def)
  have a: "a \<le> 4" "240 + a = unat b" using assms(1,2) by (simp_all add: a_def)
  have x: "x < 64" "128 + x = unat c" using c by (simp_all add: x_def)
  have y: "y < 64" "128 + y = unat d" using d by (simp_all add: y_def)
  have z: "z < 64" "128 + z = unat e" using e by (simp_all add: z_def)
  have lo: "a = 0 \<Longrightarrow> 16 \<le> x"
    using assms(1,3) by (auto simp: in_range_def second_lo_def a_def x_def split: if_splits)
  have hi: "a = 4 \<Longrightarrow> x < 16"
    using assms(1,3) by (auto simp: in_range_def second_hi_def a_def x_def split: if_splits)
  have cp: "cp = a * 262144 + x * 4096 + y * 64 + z"
    using m1d[of "unat b"] m1b[of "unat c"] m1b[of "unat d"] m1b[of "unat e"] assms(1,2) c d e
    by (simp add: cp_def a_def x_def y_def z_def)
  have d1: "cp div 262144 = a" unfolding cp using x(1) y(1) z(1) by linarith
  have d2: "cp div 4096 = a * 64 + x" unfolding cp using y(1) z(1) by linarith
  have cp2: "cp = ((a * 64 + x) * 64 + y) * 64 + z" by (simp add: cp)
  have d3: "cp div 64 = (a * 64 + x) * 64 + y" unfolding cp2 using z(1) by (rule div_mod_digits(1))
  have d4: "cp mod 64 = z" unfolding cp2 using z(1) by (rule div_mod_digits(2))
  have d5: "(a * 64 + x) mod 64 = x" using x(1) by (rule div_mod_digits(2))
  have d6: "((a * 64 + x) * 64 + y) mod 64 = y" using y(1) by (rule div_mod_digits(2))
  have r1: "65536 \<le> cp" unfolding cp using lo by (cases "a = 0") linarith+
  have r2: "cp \<le> 0x10FFFF"
  proof (cases "a = 4")
    case True
    with hi y(1) z(1) show ?thesis unfolding cp by linarith
  next
    case False
    with a(1) x(1) y(1) z(1) show ?thesis unfolding cp by linarith
  qed
  have n: "\<not> cp < 128" "\<not> cp < 2048" "\<not> cp < 65536" using r1 by linarith+
  have "encode_cp cp = [b, c, d, e]"
    by (simp only: encode_cp_def n if_False d1 d2 d3 d4 d5 d6 a(2) x(2) y(2) z(2) byte_of_unat)
  with r1 r2 show ?thesis by simp
qed


lemma utf8_roundtrip: "well_formed_utf8 bs \<Longrightarrow> utf8_encode (utf8_decode bs) = bs"
proof (induction bs rule: length_induct)
  case (1 bs)
  note IH = 1(1)[rule_format] and wf = 1(2)
  show ?case
  proof (cases bs)
    case Nil
    then show ?thesis by simp
  next
    case (Cons b bs1)
    let ?n = "unat b"
    consider (one) "?n < 0x80"
      | (two) "0xC2 \<le> ?n" "?n \<le> 0xDF"
      | (three) "0xE0 \<le> ?n" "?n \<le> 0xEF"
      | (four) "0xF0 \<le> ?n" "?n \<le> 0xF4"
      | (bad) "\<not> ?n < 0x80" "\<not> (0xC2 \<le> ?n \<and> ?n \<le> 0xDF)" "\<not> (0xE0 \<le> ?n \<and> ?n \<le> 0xEF)"
              "\<not> (0xF0 \<le> ?n \<and> ?n \<le> 0xF4)"
      by linarith
    then show ?thesis
    proof cases
      case one
      with wf Cons have "well_formed_utf8 bs1" by simp
      with IH[of bs1] Cons have rest: "utf8_encode (utf8_decode bs1) = bs1" by simp
      have "utf8_decode bs = of_nat ?n # utf8_decode bs1" using one Cons by simp
      moreover have "utf8_encode (of_nat ?n # utf8_decode bs1) = encode_cp ?n @ utf8_encode (utf8_decode bs1)"
        using one by (intro encode_unit) linarith+
      ultimately show ?thesis using rest encode_one[OF one] Cons by simp
    next
      case two
      with wf Cons obtain c cs where bs1: "bs1 = c # cs" and c: "in_range 0x80 0xBF c"
        and w: "well_formed_utf8 cs"
        by (auto simp: Let_def split: list.splits)
      with IH[of cs] Cons have rest: "utf8_encode (utf8_decode cs) = cs" by simp
      let ?cp = "(?n mod 32) * 64 + unat c mod 64"
      have dec: "utf8_decode bs = of_nat ?cp # utf8_decode cs"
        using two c Cons bs1 by (simp add: Let_def)
      from encode_two[OF two c] have p: "?cp < 0x10000" "\<not> (0xD800 \<le> ?cp \<and> ?cp \<le> 0xDFFF)"
        "encode_cp ?cp = [b, c]"
        by blast+
      have "utf8_encode (utf8_decode bs) = utf8_encode (of_nat ?cp # utf8_decode cs)"
        by (simp only: dec)
      also have "\<dots> = encode_cp ?cp @ utf8_encode (utf8_decode cs)"
        using p(1,2) by (rule encode_unit)
      also have "\<dots> = [b, c] @ cs"
        by (simp only: p(3) rest)
      also have "\<dots> = bs"
        by (simp add: Cons bs1)
      finally show ?thesis .
    next
      case three
      with wf Cons obtain c d ds where bs1: "bs1 = c # d # ds"
        and c: "in_range (second_lo ?n) (second_hi ?n) c" and d: "in_range 0x80 0xBF d"
        and w: "well_formed_utf8 ds"
        by (auto simp: Let_def split: list.splits)
      with IH[of ds] Cons have rest: "utf8_encode (utf8_decode ds) = ds" by simp
      let ?cp = "(?n mod 16) * 4096 + (unat c mod 64) * 64 + unat d mod 64"
      have dec: "utf8_decode bs = of_nat ?cp # utf8_decode ds"
        using three c d Cons bs1 by (simp add: Let_def)
      from encode_three[OF three c d] have p: "?cp < 0x10000" "\<not> (0xD800 \<le> ?cp \<and> ?cp \<le> 0xDFFF)"
        "encode_cp ?cp = [b, c, d]"
        by blast+
      have "utf8_encode (utf8_decode bs) = utf8_encode (of_nat ?cp # utf8_decode ds)"
        by (simp only: dec)
      also have "\<dots> = encode_cp ?cp @ utf8_encode (utf8_decode ds)"
        using p(1,2) by (rule encode_unit)
      also have "\<dots> = [b, c, d] @ ds"
        by (simp only: p(3) rest)
      also have "\<dots> = bs"
        by (simp add: Cons bs1)
      finally show ?thesis .
    next
      case four
      with wf Cons obtain c d e es where bs1: "bs1 = c # d # e # es"
        and c: "in_range (second_lo ?n) (second_hi ?n) c" and d: "in_range 0x80 0xBF d"
        and e: "in_range 0x80 0xBF e" and w: "well_formed_utf8 es"
        by (auto simp: Let_def split: list.splits)
      with IH[of es] Cons have rest: "utf8_encode (utf8_decode es) = es" by simp
      let ?cp = "(?n mod 8) * 262144 + (unat c mod 64) * 4096 + (unat d mod 64) * 64 + unat e mod 64"
      have dec: "utf8_decode bs = units_of_cp ?cp @ utf8_decode es"
        using four c d e Cons bs1 by (simp add: Let_def)
      from encode_four[OF four c d e] have p: "0x10000 \<le> ?cp" "?cp \<le> 0x10FFFF" "encode_cp ?cp = [b, c, d, e]"
        by blast+
      have "utf8_encode (utf8_decode bs) = utf8_encode (units_of_cp ?cp @ utf8_decode es)"
        by (simp only: dec)
      also have "\<dots> = encode_cp ?cp @ utf8_encode (utf8_decode es)"
        using p(1,2) by (rule encode_pair)
      also have "\<dots> = [b, c, d, e] @ es"
        by (simp only: p(3) rest)
      also have "\<dots> = bs"
        by (simp add: Cons bs1)
      finally show ?thesis .
    next
      case bad
      with wf Cons show ?thesis by (simp add: Let_def)
    qed
  qed
qed

section \<open>Facts about the file system\<close>

lemma file_at_simps [simp]:
  "file_at (File b) [] = Some b"
  "file_at (Dir es) [] = None"
  "file_at (File b) (n # q) = None"
  "file_at (Dir es) (n # q) = (case map_of es n of None \<Rightarrow> None | Some c \<Rightarrow> file_at c q)"
  by (auto simp: file_at_def split: option.splits)

lemma is_dir_simps [simp]:
  "is_dir (File b) q = False"
  "is_dir (Dir es) [] = True"
  "is_dir (Dir es) (n # q) = (case map_of es n of None \<Rightarrow> False | Some c \<Rightarrow> is_dir c q)"
  by (cases q; auto simp: is_dir_def split: option.splits)+

lemma resolve_empty_dir: "q \<noteq> [] \<Longrightarrow> resolve (Dir []) q = Inl ENOENT"
  by (cases q) auto

lemma file_at_write:
  "write_at t p b = Inr t' \<Longrightarrow> file_at t' q = (if q = p then Some b else file_at t q)"
proof (induction t p b arbitrary: t' q rule: write_at.induct)
  case (1 old b)
  then show ?case by (cases q) auto
next
  case (4 es n p b)
  show ?case
  proof (cases q)
    case Nil
    with 4 show ?thesis by (auto split: option.splits sum.splits if_splits)
  next
    case (Cons m l)
    show ?thesis
    proof (cases "map_of es n")
      case None
      with 4 Cons show ?thesis
        by (cases l) (auto simp: update_conv' split: option.splits if_splits)
    next
      case (Some c)
      with 4 Cons show ?thesis
        by (auto simp: update_conv' split: option.splits sum.splits)
    qed
  qed
qed auto

lemma is_dir_write: "write_at t p b = Inr t' \<Longrightarrow> is_dir t' q = is_dir t q"
proof (induction t p b arbitrary: t' q rule: write_at.induct)
  case (4 es n p b)
  show ?case
  proof (cases q)
    case Nil
    with 4 show ?thesis by (auto split: option.splits sum.splits if_splits)
  next
    case (Cons m l)
    show ?thesis
    proof (cases "map_of es n")
      case None
      with 4 Cons show ?thesis
        by (auto simp: update_conv' split: option.splits if_splits)
    next
      case (Some c)
      with 4 Cons show ?thesis
        by (auto simp: update_conv' split: option.splits sum.splits if_splits)
    qed
  qed
qed auto

lemma write_at_succeeds:
  "(\<exists>t'. write_at t (d @ [x]) b = Inr t') \<longleftrightarrow> is_dir t d \<and> \<not> is_dir t (d @ [x])"
proof (induction d arbitrary: t)
  case Nil
  show ?case
  proof (cases t)
    case (File b')
    then show ?thesis by simp
  next
    case (Dir es)
    show ?thesis
    proof (cases "map_of es x")
      case None
      with Dir show ?thesis by simp
    next
      case (Some c)
      with Dir show ?thesis by (cases c) auto
    qed
  qed
next
  case (Cons n d)
  show ?case
  proof (cases t)
    case (File b')
    then show ?thesis by simp
  next
    case (Dir es)
    show ?thesis
    proof (cases "map_of es n")
      case None
      with Dir show ?thesis by simp
    next
      case (Some c)
      with Dir Cons.IH[of c] show ?thesis
        by (auto split: sum.splits)
    qed
  qed
qed

lemma file_at_mkdir: "mkdir_p t p = Inr t' \<Longrightarrow> file_at t' q = file_at t q"
proof (induction t p arbitrary: t' q rule: mkdir_p.induct)
  case (4 es n p)
  show ?case
  proof (cases q)
    case Nil
    with 4 show ?thesis by (auto split: sum.splits)
  next
    case (Cons m l)
    show ?thesis
    proof (cases "map_of es n")
      case None
      with 4(1)[of _ l] 4(2) Cons show ?thesis
        by (cases l) (auto simp: update_conv' split: option.splits sum.splits)
    next
      case (Some c)
      with 4 Cons show ?thesis
        by (auto simp: update_conv' split: option.splits sum.splits)
    qed
  qed
qed auto

lemma resolve_mkdir_other:
  "mkdir_p t p = Inr t' \<Longrightarrow> \<not> prefix q p \<Longrightarrow> \<not> prefix p q \<Longrightarrow> resolve t' q = resolve t q"
proof (induction t p arbitrary: t' q rule: mkdir_p.induct)
  case (4 es n p)
  show ?case
  proof (cases q)
    case Nil
    with 4 show ?thesis by simp
  next
    case (Cons m l)
    show ?thesis
    proof (cases "map_of es n")
      case None
      with 4 Cons show ?thesis
        by (cases l) (auto simp: update_conv' split: option.splits sum.splits)
    next
      case (Some c)
      with 4 Cons show ?thesis
        by (auto simp: update_conv' split: option.splits sum.splits)
    qed
  qed
qed auto


lemma mkdir_p_existing: "is_dir t p \<Longrightarrow> mkdir_p t p = Inr t"
  by (induction t p rule: mkdir_p.induct) (auto simp: update_triv split: option.splits)

lemma resolve_append:
  "resolve t (d @ q) = (case resolve t d of Inl e \<Rightarrow> Inl e | Inr c \<Rightarrow> resolve c q)"
  by (induction t d rule: resolve.induct) (auto split: option.splits)

lemma resolve_write_same: "write_at t p b = Inr t' \<Longrightarrow> resolve t' p = Inr (File b)"
  by (induction t p b arbitrary: t' rule: write_at.induct)
     (auto simp: update_conv' split: option.splits sum.splits if_splits)

lemma resolve_write_other:
  "write_at t p b = Inr t' \<Longrightarrow> \<not> prefix q p \<Longrightarrow> \<not> prefix p q \<Longrightarrow> resolve t' q = resolve t q"
proof (induction t p b arbitrary: t' q rule: write_at.induct)
  case (4 es n p b)
  then show ?case
    by (cases q) (auto simp: update_conv' split: option.splits sum.splits if_splits)
qed auto

section \<open>Facts about the paths of the scripts\<close>

lemma project_root_eq:
  "project_root = [js ''Users'', js ''arthur'', js ''Documents'', js ''personal'', js ''goryudoc'']"
  by (simp add: project_root_def path_resolve_def js_def)

lemma sourceDir_eq: "sourceDir = project_root @ [js ''documentation'', js ''middleware'']"
  by (simp add: sourceDir_def project_root_def path_resolve_def js_def)

lemma targetDir_eq: "targetDir = project_root @ [js ''docs'', js ''middleware'']"
  by (simp add: targetDir_def project_root_def path_resolve_def js_def)

lemma configPath_eq: "configPath = project_root @ [js ''docs'', js ''.vitepress'', js ''config.mts'']"
  by (simp add: configPath_def project_root_def path_resolve_def js_def)

lemma outside_snoc: "outside d q \<Longrightarrow> \<not> prefix q (d @ [x]) \<and> \<not> prefix (d @ [x]) q"
  by (auto simp: outside_def prefix_def append_eq_append_conv2 append_eq_Cons_conv)

lemma source_outside_target: "outside targetDir (sourceDir @ q)"
  by (simp add: outside_def sourceDir_eq targetDir_eq js_def)

lemma config_outside_target: "outside targetDir configPath"
  by (simp add: outside_def configPath_eq targetDir_eq js_def)

lemma target_md_inject: "targetDir @ [x @ js ''.md''] = targetDir @ [y @ js ''.md''] \<longleftrightarrow> x = y"
  by simp

lemma target_md_index: "targetDir @ [x @ js ''.md''] = targetDir @ [js ''index.md''] \<longleftrightarrow> x = js ''index''"
  by (simp add: js_def)

section \<open>Facts about the loop of the primary script\<close>

lemma migrate_mw_None:
  assumes "migrate_mw F mw s = (None, s')"
  shows "(\<not> has_readme F (root s) mw \<and> s' = s)
       \<or> (has_readme F (root s) mw
          \<and> (\<exists>b r. file_at (root s) (sourceDir @ [mw, js ''README.md'']) = Some b
                 \<and> write_at (root s) (targetDir @ [mw @ js ''.md'']) (utf8_encode (utf8_decode b)) = Inr r
                 \<and> s' = s\<lparr>root := r, stdout := stdout s @ [js ''Migrated '' @ mw],
                          middlewareList := middlewareList s @ [mw]\<rparr>))"
  using assms
  by (auto simp: migrate_mw_def has_readme_def path_join_def statSync_isDirectory_def is_dir_def
        readFileSync_utf8_def writeFileSync_def file_at_def console_log_def Let_def
      split: option.splits sum.splits node.splits if_splits)

lemma migrate_mw_Some: "migrate_mw F mw s = (Some e, s') \<Longrightarrow> s' = s"
  by (auto simp: migrate_mw_def Let_def split: option.splits sum.splits node.splits if_splits)

lemma migrate_mw_frame:
  assumes "migrate_mw F mw s = (e, s')"
  shows "outside targetDir q \<Longrightarrow> resolve (root s') q = resolve (root s) q"
    and "is_dir (root s') q = is_dir (root s) q"
proof -
  show "outside targetDir q \<Longrightarrow> resolve (root s') q = resolve (root s) q"
  proof (cases e)
    case None
    assume "outside targetDir q"
    with None assms migrate_mw_None[of F mw s s'] show ?thesis
      by (auto dest!: outside_snoc[where x = "mw @ js ''.md''"] simp: resolve_write_other)
  next
    case (Some a)
    with assms show ?thesis by (auto dest: migrate_mw_Some)
  qed
  show "is_dir (root s') q = is_dir (root s) q"
  proof (cases e)
    case None
    with assms migrate_mw_None[of F mw s s'] show ?thesis
      by (auto simp: is_dir_write)
  next
    case (Some a)
    with assms show ?thesis by (auto dest: migrate_mw_Some)
  qed
qed

lemma has_readme_cong:
  "(\<And>q. outside targetDir q \<Longrightarrow> resolve t' q = resolve t q) \<Longrightarrow> has_readme F t' mw = has_readme F t mw"
  using source_outside_target[of "[mw]"] source_outside_target[of "[mw, js ''README.md'']"]
  by (simp add: has_readme_def is_dir_def existsSync_def exists_at_def path_join_def split: option.splits)

lemma forEach_mw_frame:
  assumes "forEach_mw F mws s = (e, s')"
  shows "outside targetDir q \<Longrightarrow> resolve (root s') q = resolve (root s) q"
    and "is_dir (root s') q = is_dir (root s) q"
  using assms
proof (induction mws arbitrary: s)
  case Nil
  { case 1 then show ?case by simp }
  { case 2 then show ?case by simp }
next
  case (Cons mw mws)
  { case 1
    obtain e1 s1 where st: "migrate_mw F mw s = (e1, s1)" by (cases "migrate_mw F mw s")
    show ?case
    proof (cases e1)
      case None
      with st 1 Cons(1)[of s1] migrate_mw_frame(1)[OF st, of q] show ?thesis by simp
    next
      case (Some a)
      with st 1 migrate_mw_frame(1)[OF st, of q] show ?thesis by simp
    qed }
  { case 2
    obtain e1 s1 where st: "migrate_mw F mw s = (e1, s1)" by (cases "migrate_mw F mw s")
    show ?case
    proof (cases e1)
      case None
      with st 2 Cons(2)[of s1] migrate_mw_frame(2)[OF st, of q] show ?thesis by simp
    next
      case (Some a)
      with st 2 migrate_mw_frame(2)[OF st, of q] show ?thesis by simp
    qed }
qed

lemma file_at_cong: "resolve t' q = resolve t q \<Longrightarrow> file_at t' q = file_at t q"
  by (simp add: file_at_def)

lemma migrate_mw_file_other:
  assumes "migrate_mw F mw s = (e, s')" and "p \<noteq> targetDir @ [mw @ js ''.md'']"
  shows "file_at (root s') p = file_at (root s) p"
proof (cases e)
  case None
  with assms migrate_mw_None[of F mw s s'] show ?thesis
    by (auto simp: file_at_write)
next
  case (Some a)
  with assms show ?thesis by (auto dest: migrate_mw_Some)
qed

lemma forEach_mw_file_other:
  assumes "forEach_mw F mws s = (e, s')"
    and "\<And>mw. mw \<in> set mws \<Longrightarrow> p \<noteq> targetDir @ [mw @ js ''.md'']"
  shows "file_at (root s') p = file_at (root s) p"
  using assms
proof (induction mws arbitrary: s)
  case Nil
  then show ?case by simp
next
  case (Cons mw mws)
  obtain e1 s1 where st: "migrate_mw F mw s = (e1, s1)" by (cases "migrate_mw F mw s")
  have one: "file_at (root s1) p = file_at (root s) p"
    using migrate_mw_file_other[OF st] Cons.prems(2) by simp
  show ?case
  proof (cases e1)
    case None
    with st Cons.prems have "forEach_mw F mws s1 = (e, s')" by simp
    then have "file_at (root s') p = file_at (root s1) p"
      using Cons.IH Cons.prems(2) by simp
    with one show ?thesis by simp
  next
    case (Some a)
    with st Cons.prems one show ?thesis by simp
  qed
qed

lemma forEach_mw_None:
  assumes "forEach_mw F mws s = (None, s')"
  shows "middlewareList s' = middlewareList s @ filter (has_readme F (root s)) mws"
    and "stdout s' = stdout s @ map (\<lambda>mw. js ''Migrated '' @ mw) (filter (has_readme F (root s)) mws)"
  using assms
proof (induction mws arbitrary: s)
  case Nil
  { case 1 then show ?case by simp }
  { case 2 then show ?case by simp }
next
  case (Cons mw mws)
  { case 1
    obtain e1 s1 where st: "migrate_mw F mw s = (e1, s1)" by (cases "migrate_mw F mw s")
    with 1 have e1: "e1 = None" and rest: "forEach_mw F mws s1 = (None, s')"
      by (auto split: option.splits)
    have same: "has_readme F (root s1) x = has_readme F (root s) x" for x
      using migrate_mw_frame(1)[OF st] by (rule has_readme_cong)
    from Cons(1)[OF rest] same
    have "middlewareList s' = middlewareList s1 @ filter (has_readme F (root s)) mws"
      by (simp cong: filter_cong)
    with migrate_mw_None[of F mw s s1] st e1 show ?case by auto }
  { case 2
    obtain e1 s1 where st: "migrate_mw F mw s = (e1, s1)" by (cases "migrate_mw F mw s")
    with 2 have e1: "e1 = None" and rest: "forEach_mw F mws s1 = (None, s')"
      by (auto split: option.splits)
    have same: "has_readme F (root s1) x = has_readme F (root s) x" for x
      using migrate_mw_frame(1)[OF st] by (rule has_readme_cong)
    from Cons(2)[OF rest] same
    have "stdout s' = stdout s1 @ map (\<lambda>mw. js ''Migrated '' @ mw) (filter (has_readme F (root s)) mws)"
      by (simp cong: filter_cong)
    with migrate_mw_None[of F mw s s1] st e1 show ?case by auto }
qed

lemma forEach_mw_file_written:
  assumes "forEach_mw F mws s = (None, s')" and "mw \<in> set mws" and "has_readme F (root s) mw"
  shows "\<exists>b. file_at (root s) (sourceDir @ [mw, js ''README.md'']) = Some b
           \<and> file_at (root s') (targetDir @ [mw @ js ''.md'']) = Some (utf8_encode (utf8_decode b))"
  using assms
proof (induction mws arbitrary: s)
  case Nil
  then show ?case by simp
next
  case (Cons x mws)
  obtain e1 s1 where st: "migrate_mw F x s = (e1, s1)" by (cases "migrate_mw F x s")
  with Cons.prems(1) have e1: "e1 = None" and rest: "forEach_mw F mws s1 = (None, s')"
    by (auto split: option.splits)
  have same: "has_readme F (root s1) y = has_readme F (root s) y" for y
    using migrate_mw_frame(1)[OF st] by (rule has_readme_cong)
  have src: "file_at (root s1) (sourceDir @ q) = file_at (root s) (sourceDir @ q)" for q
    using migrate_mw_frame(1)[OF st source_outside_target] by (rule file_at_cong)
  show ?case
  proof (cases "mw \<in> set mws")
    case True
    with Cons.IH[OF rest] same Cons.prems(3) src[of "[mw, js ''README.md'']"] show ?thesis
      by simp
  next
    case False
    with Cons.prems(2) have x: "x = mw" by simp
    from migrate_mw_None[of F mw s s1] st e1 x Cons.prems(3)
    obtain b r where b: "file_at (root s) (sourceDir @ [mw, js ''README.md'']) = Some b"
      and w: "write_at (root s) (targetDir @ [mw @ js ''.md'']) (utf8_encode (utf8_decode b)) = Inr r"
      and r: "root s1 = r"
      by auto
    from w r have "file_at (root s1) (targetDir @ [mw @ js ''.md'']) = Some (utf8_encode (utf8_decode b))"
      by (simp add: file_at_write)
    moreover have "file_at (root s') (targetDir @ [mw @ js ''.md'']) = file_at (root s1) (targetDir @ [mw @ js ''.md''])"
    proof (rule forEach_mw_file_other[OF rest])
      fix y assume "y \<in> set mws"
      with False have "y \<noteq> mw" by auto
      then show "targetDir @ [mw @ js ''.md''] \<noteq> targetDir @ [y @ js ''.md'']" by simp
    qed
    ultimately show ?thesis using b by simp
  qed
qed

section \<open>Facts about a run of the primary script\<close>

lemmas eval_defs = migrate_def write_pages_def ensure_dir_def existsSync_def exists_at_def mkdirSync_recursive_def readdirSync_def
  statSync_isDirectory_def readFileSync_utf8_def writeFileSync_def migrate_mw_def path_join_def
  sourceDir_def targetDir_def configPath_def path_resolve_def js_def in_dirs_def
  example_tree_def stale_tree_def clash_tree_def locked_tree_def auth_topics_def two_topics_def
  clash_topics_def locked_topics_def readme_hidden_def heading_bytes_def line_bytes_def
  no_config_tree_def broken_tree_def broken_topics_def listing_denied_def
  example_prepared_def broken_prepared_def
  project_def config_dir_def no_faults_def
  ascii_def console_log_def indexContent_def index_heading_def index_link_def nl_def JSON_stringify_def
  quote_json_def quote_unit_def encode_cp_def in_range_def file_at_def is_dir_def

lemma ensure_dir_file_at: "ensure_dir F t d = Inr r \<Longrightarrow> file_at r q = file_at t q"
  by (auto simp: ensure_dir_def mkdirSync_recursive_def file_at_mkdir split: if_splits option.splits)

lemma ensure_dir_outside: "ensure_dir F t d = Inr r \<Longrightarrow> outside d q \<Longrightarrow> resolve r q = resolve t q"
  by (auto simp: ensure_dir_def mkdirSync_recursive_def outside_def resolve_mkdir_other
      split: if_splits option.splits)

lemma write_pages_NoneE:
  assumes "write_pages F t = (None, s)"
  obtains r1 es s2 r3 where
    "ensure_dir F t targetDir = Inr r1"
    "F (ReaddirSync sourceDir) = None"
    "resolve r1 sourceDir = Inr (Dir es)"
    "forEach_mw F (map fst es) \<lparr>root = r1, stdout = [], middlewareList = []\<rparr> = (None, s2)"
    "F (WriteFileSync (targetDir @ [js ''index.md''])) = None"
    "write_at (root s2) (targetDir @ [js ''index.md''])
       (utf8_encode (indexContent (middlewareList s2))) = Inr r3"
    "s = s2\<lparr>root := r3\<rparr>"
  using assms
  by (auto simp: write_pages_def Let_def readdirSync_def writeFileSync_def path_join_def
      split: sum.splits option.splits node.splits prod.splits)

lemma migrate_None_pages:
  assumes "migrate F t = (None, s)"
  shows "\<exists>s3 c. write_pages F t = (None, s3)
           \<and> readFileSync_utf8 F (root s3) configPath = Inr c
           \<and> s = s3\<lparr>stdout := stdout s3 @ [js ''Middleware List for Sidebar:'',
                                            JSON_stringify (middlewareList s3)]\<rparr>"
  using assms
  by (auto simp: migrate_def console_log_def split: sum.splits option.splits prod.splits)

lemma resolve_snoc_Some:
  "resolve t (d @ [n]) = Inr x \<Longrightarrow> \<exists>es. resolve t d = Inr (Dir es) \<and> map_of es n = Some x"
proof -
  assume a: "resolve t (d @ [n]) = Inr x"
  then obtain c where c: "resolve t d = Inr c" and x: "resolve c [n] = Inr x"
    by (auto simp: resolve_append split: sum.splits)
  from x show ?thesis using c by (cases c) (auto split: option.splits)
qed

lemma write_pages_listing:
  assumes "write_pages F t = (None, s)"
  shows "\<exists>es. resolve t sourceDir = Inr (Dir es)
           \<and> middlewareList s = filter (has_readme F t) (map fst es)
           \<and> stdout s = map (\<lambda>mw. js ''Migrated '' @ mw) (middlewareList s)"
proof -
  from assms obtain r1 es s2 r3 where
    e: "ensure_dir F t targetDir = Inr r1" and
    "F (ReaddirSync sourceDir) = None" and
    l: "resolve r1 sourceDir = Inr (Dir es)" and
    f: "forEach_mw F (map fst es) \<lparr>root = r1, stdout = [], middlewareList = []\<rparr> = (None, s2)" and
    "F (WriteFileSync (targetDir @ [js ''index.md''])) = None" and
    "write_at (root s2) (targetDir @ [js ''index.md''])
       (utf8_encode (indexContent (middlewareList s2))) = Inr r3" and
    s: "s = s2\<lparr>root := r3\<rparr>"
    by (rule write_pages_NoneE)
  have same: "has_readme F r1 x = has_readme F t x" for x
    using ensure_dir_outside[OF e] by (rule has_readme_cong)
  have "resolve t sourceDir = Inr (Dir es)"
    using ensure_dir_outside[OF e, of sourceDir] source_outside_target[of "[]"] l by simp
  moreover from forEach_mw_None[OF f] same
  have "middlewareList s2 = filter (has_readme F t) (map fst es)"
    and "stdout s2 = map (\<lambda>mw. js ''Migrated '' @ mw) (filter (has_readme F t) (map fst es))"
    by (simp_all cong: filter_cong)
  ultimately show ?thesis using s by simp
qed

lemma migrate_listing:
  assumes "migrate F t = (None, s)"
  shows "\<exists>es. resolve t sourceDir = Inr (Dir es)
           \<and> middlewareList s = filter (has_readme F t) (map fst es)
           \<and> stdout s = map (\<lambda>mw. js ''Migrated '' @ mw) (middlewareList s)
                @ [js ''Middleware List for Sidebar:'', JSON_stringify (middlewareList s)]"
proof -
  from migrate_None_pages[OF assms] obtain s3 where
    w: "write_pages F t = (None, s3)" and
    s: "s = s3\<lparr>stdout := stdout s3 @ [js ''Middleware List for Sidebar:'',
                                        JSON_stringify (middlewareList s3)]\<rparr>"
    by blast
  from write_pages_listing[OF w] s show ?thesis by auto
qed

lemma forEach_mw_file_unlisted:
  assumes "forEach_mw F mws s = (e, s')"
    and "\<And>mw. mw \<in> set mws \<Longrightarrow> has_readme F (root s) mw \<Longrightarrow> p \<noteq> targetDir @ [mw @ js ''.md'']"
  shows "file_at (root s') p = file_at (root s) p"
  using assms
proof (induction mws arbitrary: s)
  case Nil
  then show ?case by simp
next
  case (Cons mw mws)
  obtain e1 s1 where st: "migrate_mw F mw s = (e1, s1)" by (cases "migrate_mw F mw s")
  have same: "has_readme F (root s1) x = has_readme F (root s) x" for x
    using migrate_mw_frame(1)[OF st] by (rule has_readme_cong)
  have one: "file_at (root s1) p = file_at (root s) p"
  proof (cases e1)
    case None
    with st migrate_mw_None[of F mw s s1] Cons.prems(2)[of mw] show ?thesis
      by (auto simp: file_at_write)
  next
    case (Some a)
    with st show ?thesis by (auto dest: migrate_mw_Some)
  qed
  show ?case
  proof (cases e1)
    case None
    with st Cons.prems have "forEach_mw F mws s1 = (e, s')" by simp
    then have "file_at (root s') p = file_at (root s1) p"
      using Cons.IH[of s1] Cons.prems(2) same by simp
    with one show ?thesis by simp
  next
    case (Some a)
    with st Cons.prems one show ?thesis by simp
  qed
qed

lemma md_index: "x @ js ''.md'' = js ''index.md'' \<longleftrightarrow> x = js ''index''"
  by (simp add: js_def)

lemma write_pages_files:
  assumes "write_pages F t = (None, s)"
  shows "file_at (root s) (targetDir @ [js ''index.md''])
           = Some (utf8_encode (indexContent (middlewareList s)))"
    and "mw \<noteq> js ''index'' \<Longrightarrow> mw \<notin> set (middlewareList s) \<Longrightarrow>
           file_at (root s) (targetDir @ [mw @ js ''.md'']) = file_at t (targetDir @ [mw @ js ''.md''])"
    and "mw \<noteq> js ''index'' \<Longrightarrow> mw \<in> set (middlewareList s) \<Longrightarrow>
           \<exists>b. file_at t (sourceDir @ [mw, js ''README.md'']) = Some b
             \<and> file_at (root s) (targetDir @ [mw @ js ''.md'']) = Some (utf8_encode (utf8_decode b))"
    and "mw \<in> set (middlewareList s) \<Longrightarrow> \<exists>b. file_at t (sourceDir @ [mw, js ''README.md'']) = Some b"
proof -
  from assms obtain r1 es s2 r3 where
    e: "ensure_dir F t targetDir = Inr r1" and
    "F (ReaddirSync sourceDir) = None" and
    l: "resolve r1 sourceDir = Inr (Dir es)" and
    f: "forEach_mw F (map fst es) \<lparr>root = r1, stdout = [], middlewareList = []\<rparr> = (None, s2)" and
    "F (WriteFileSync (targetDir @ [js ''index.md''])) = None" and
    w: "write_at (root s2) (targetDir @ [js ''index.md''])
       (utf8_encode (indexContent (middlewareList s2))) = Inr r3" and
    s: "s = s2\<lparr>root := r3\<rparr>"
    by (rule write_pages_NoneE)
  have ml: "middlewareList s = filter (has_readme F r1) (map fst es)"
    using forEach_mw_None(1)[OF f] s by simp
  have src: "file_at r1 (sourceDir @ q) = file_at t (sourceDir @ q)" for q
    using ensure_dir_outside[OF e source_outside_target] by (rule file_at_cong)
  show "file_at (root s) (targetDir @ [js ''index.md''])
           = Some (utf8_encode (indexContent (middlewareList s)))"
    using w s by (simp add: file_at_write)
  have idx: "mw \<noteq> js ''index'' \<Longrightarrow>
      file_at (root s) (targetDir @ [mw @ js ''.md'']) = file_at (root s2) (targetDir @ [mw @ js ''.md''])"
    using w s by (simp add: file_at_write md_index)
  { assume ne: "mw \<noteq> js ''index''" and nin: "mw \<notin> set (middlewareList s)"
    have "file_at (root s2) (targetDir @ [mw @ js ''.md'']) = file_at r1 (targetDir @ [mw @ js ''.md''])"
    proof -
      have "file_at (root s2) (targetDir @ [mw @ js ''.md''])
          = file_at (root \<lparr>root = r1, stdout = [], middlewareList = []\<rparr>) (targetDir @ [mw @ js ''.md''])"
      proof (rule forEach_mw_file_unlisted[OF f])
        fix y assume "y \<in> set (map fst es)"
          and "has_readme F (root \<lparr>root = r1, stdout = [], middlewareList = []\<rparr>) y"
        with nin ml have "y \<noteq> mw" by auto
        then show "targetDir @ [mw @ js ''.md''] \<noteq> targetDir @ [y @ js ''.md'']" by simp
      qed
      then show ?thesis by simp
    qed
    with idx[OF ne] ensure_dir_file_at[OF e]
    show "file_at (root s) (targetDir @ [mw @ js ''.md'']) = file_at t (targetDir @ [mw @ js ''.md''])"
      by simp }
  { assume inl: "mw \<in> set (middlewareList s)"
    with ml have "mw \<in> set (map fst es)" and "has_readme F r1 mw" by auto
    with forEach_mw_file_written[OF f, of mw]
    obtain b where b: "file_at r1 (sourceDir @ [mw, js ''README.md'']) = Some b"
      and t: "file_at (root s2) (targetDir @ [mw @ js ''.md'']) = Some (utf8_encode (utf8_decode b))"
      by auto
    from b src[of "[mw, js ''README.md'']"]
    have b': "file_at t (sourceDir @ [mw, js ''README.md'']) = Some b" by simp
    then show "\<exists>b. file_at t (sourceDir @ [mw, js ''README.md'']) = Some b" by blast
    { assume ne: "mw \<noteq> js ''index''"
      from idx[OF ne] t b'
      show "\<exists>b. file_at t (sourceDir @ [mw, js ''README.md'']) = Some b
             \<and> file_at (root s) (targetDir @ [mw @ js ''.md'']) = Some (utf8_encode (utf8_decode b))"
        by simp } }
qed

lemma migrate_files:
  assumes "migrate F t = (None, s)"
  shows "file_at (root s) (targetDir @ [js ''index.md''])
           = Some (utf8_encode (indexContent (middlewareList s)))"
    and "mw \<noteq> js ''index'' \<Longrightarrow> mw \<notin> set (middlewareList s) \<Longrightarrow>
           file_at (root s) (targetDir @ [mw @ js ''.md'']) = file_at t (targetDir @ [mw @ js ''.md''])"
    and "mw \<noteq> js ''index'' \<Longrightarrow> mw \<in> set (middlewareList s) \<Longrightarrow>
           \<exists>b. file_at t (sourceDir @ [mw, js ''README.md'']) = Some b
             \<and> file_at (root s) (targetDir @ [mw @ js ''.md'']) = Some (utf8_encode (utf8_decode b))"
    and "mw \<in> set (middlewareList s) \<Longrightarrow> \<exists>b. file_at t (sourceDir @ [mw, js ''README.md'']) = Some b"
proof -
  from migrate_None_pages[OF assms] obtain s3 where
    w: "write_pages F t = (None, s3)" and
    s: "s = s3\<lparr>stdout := stdout s3 @ [js ''Middleware List for Sidebar:'',
                                        JSON_stringify (middlewareList s3)]\<rparr>"
    by blast
  from s have eq: "root s = root s3" "middlewareList s = middlewareList s3" by simp_all
  show "file_at (root s) (targetDir @ [js ''index.md''])
           = Some (utf8_encode (indexContent (middlewareList s)))"
    using write_pages_files(1)[OF w] by (simp add: eq)
  show "mw \<noteq> js ''index'' \<Longrightarrow> mw \<notin> set (middlewareList s) \<Longrightarrow>
           file_at (root s) (targetDir @ [mw @ js ''.md'']) = file_at t (targetDir @ [mw @ js ''.md''])"
    using write_pages_files(2)[OF w, of mw] by (simp add: eq)
  show "mw \<noteq> js ''index'' \<Longrightarrow> mw \<in> set (middlewareList s) \<Longrightarrow>
           \<exists>b. file_at t (sourceDir @ [mw, js ''README.md'']) = Some b
             \<and> file_at (root s) (targetDir @ [mw @ js ''.md'']) = Some (utf8_encode (utf8_decode b))"
    using write_pages_files(3)[OF w, of mw] by (simp add: eq)
  show "mw \<in> set (middlewareList s) \<Longrightarrow> \<exists>b. file_at t (sourceDir @ [mw, js ''README.md'']) = Some b"
    using write_pages_files(4)[OF w, of mw] by (simp add: eq)
qed

lemma listed_in_source:
  assumes "is_dir t (d @ [mw])" and "resolve t d = Inr (Dir es)"
  shows "mw \<in> set (map fst es)"
proof -
  from assms(1) obtain x where "resolve t (d @ [mw]) = Inr x"
    by (auto simp: is_dir_def split: sum.splits)
  from resolve_snoc_Some[OF this] assms(2) have "map_of es mw = Some x" by auto
  then have "(mw, x) \<in> set es" by (rule map_of_SomeD)
  then show ?thesis by force
qed

lemma example_run: "migrate no_faults example_tree = (None, example_final)"
  by (simp add: eval_defs example_final_def)

lemma stale_run: "migrate no_faults stale_tree = (None, stale_final)"
  by (simp add: eval_defs stale_final_def)

lemma clash_run: "migrate no_faults clash_tree = (None, clash_final)"
  by (simp add: eval_defs clash_final_def)

lemma locked_run: "migrate readme_hidden locked_tree = (None, locked_final)"
  by (simp add: eval_defs locked_final_def)

lemma write_pages_frame:
  assumes "write_pages F t = (e, s)" and "outside targetDir q"
  shows "resolve (root s) q = resolve t q"
proof (cases "ensure_dir F t targetDir")
  case (Inl a)
  with assms show ?thesis by (auto simp: write_pages_def)
next
  case (Inr r1)
  note e = ensure_dir_outside[OF Inr assms(2)]
  show ?thesis
  proof (cases "readdirSync F r1 sourceDir")
    case (Inl a)
    with Inr assms e show ?thesis by (auto simp: write_pages_def)
  next
    case mws: (Inr mws)
    obtain e2 s2 where f: "forEach_mw F mws \<lparr>root = r1, stdout = [], middlewareList = []\<rparr> = (e2, s2)"
      by (cases "forEach_mw F mws \<lparr>root = r1, stdout = [], middlewareList = []\<rparr>")
    from forEach_mw_frame(1)[OF f assms(2)] e have l: "resolve (root s2) q = resolve t q" by simp
    show ?thesis
    proof (cases e2)
      case (Some a)
      with Inr mws f assms l show ?thesis by (auto simp: write_pages_def)
    next
      case None
      show ?thesis
      proof (cases "writeFileSync F (root s2) (targetDir @ [js ''index.md'']) (indexContent (middlewareList s2))")
        case (Inl a)
        with None Inr mws f assms l show ?thesis by (auto simp: write_pages_def path_join_def)
      next
        case w: (Inr r3)
        then have "write_at (root s2) (targetDir @ [js ''index.md''])
            (utf8_encode (indexContent (middlewareList s2))) = Inr r3"
          by (auto simp: writeFileSync_def split: option.splits)
        from resolve_write_other[OF this] outside_snoc[OF assms(2)]
        have "resolve r3 q = resolve (root s2) q" by blast
        with w None Inr mws f assms l show ?thesis by (auto simp: write_pages_def path_join_def)
      qed
    qed
  qed
qed

lemma migrate_root: "migrate F t = (e, s) \<Longrightarrow> root s = root (snd (write_pages F t))"
  by (auto simp: migrate_def console_log_def split: prod.splits option.splits sum.splits)

lemma migrate_frame:
  assumes "migrate F t = (e, s)" and "outside targetDir q"
  shows "resolve (root s) q = resolve t q"
proof -
  obtain e' s' where w: "write_pages F t = (e', s')" by (cases "write_pages F t")
  from migrate_root[OF assms(1)] w have "root s = root s'" by simp
  with write_pages_frame[OF w assms(2)] show ?thesis by simp
qed

lemma hd_js_Migrated: "hd (js ''Migrated '' @ mw) = 0x4D"
  by (simp add: js_def)

lemma hd_newSidebarSection: "hd (newSidebarSection up list) = 0x20"
  by (simp add: newSidebarSection_def js_def)

lemma resolve_errors: "resolve t p = Inl e \<Longrightarrow> e = ENOENT \<or> e = ENOTDIR"
  by (induction t p rule: resolve.induct) (auto split: option.splits)

lemma no_config_run: "write_pages no_faults no_config_tree = (None, no_config_pages)"
  by (simp add: eval_defs no_config_pages_def)

lemma forEach_mw_append:
  "forEach_mw F (xs @ ys) s =
     (case forEach_mw F xs s of (Some e, s') \<Rightarrow> (Some e, s') | (None, s') \<Rightarrow> forEach_mw F ys s')"
  by (induction xs arbitrary: s) (auto split: prod.splits option.splits)

lemma forEach_mw_stops:
  assumes "forEach_mw F done s = (None, s1)" and "migrate_mw F mw s1 = (Some e, s')"
  shows "forEach_mw F (done @ mw # todo) s = (Some e, s1)"
  using assms migrate_mw_Some[OF assms(2)] by (simp add: forEach_mw_append)

lemma migrate_mw_throws:
  "migrate_mw F mw s = (Some e, s') \<longleftrightarrow>
     s' = s \<and>
     (statSync_isDirectory F (root s) (sourceDir @ [mw]) = Inl e
      \<or> (statSync_isDirectory F (root s) (sourceDir @ [mw]) = Inr True
          \<and> existsSync F (root s) (sourceDir @ [mw, js ''README.md''])
          \<and> (readFileSync_utf8 F (root s) (sourceDir @ [mw, js ''README.md'']) = Inl e
              \<or> (\<exists>content. readFileSync_utf8 F (root s) (sourceDir @ [mw, js ''README.md'']) = Inr content
                    \<and> writeFileSync F (root s) (targetDir @ [mw @ js ''.md'']) content = Inl e))))"
  by (auto simp: migrate_mw_def path_join_def Let_def split: sum.splits)

lemma migrate_mw_skips:
  "statSync_isDirectory F (root s) (sourceDir @ [mw]) = Inr d \<Longrightarrow>
   \<not> (d \<and> existsSync F (root s) (sourceDir @ [mw, js ''README.md''])) \<Longrightarrow>
   migrate_mw F mw s = (None, s)"
  by (auto simp: migrate_mw_def path_join_def Let_def)

lemma broken_run: "migrate no_faults broken_tree = (Some EISDIR, broken_stopped)"
  by (simp add: eval_defs broken_stopped_def)

lemma denied_run:
  "migrate listing_denied example_tree
     = (Some EACCES, \<lparr>root = example_prepared, stdout = [], middlewareList = []\<rparr>)"
  by (simp add: eval_defs)

lemma write_pages_Some_migrate: "write_pages F t = (Some e, s) \<Longrightarrow> migrate F t = (Some e, s)"
  by (simp add: migrate_def)

lemma writeFileSync_succeeds:
  "(\<exists>r. writeFileSync F t (d @ [x]) c = Inr r) \<longleftrightarrow>
     F (WriteFileSync (d @ [x])) = None \<and> is_dir t d \<and> \<not> is_dir t (d @ [x])"
  using write_at_succeeds[of t d x "utf8_encode c"]
  by (auto simp: writeFileSync_def split: option.splits)

lemma stat_cong:
  "resolve t' p = resolve t p \<Longrightarrow> statSync_isDirectory F t' p = statSync_isDirectory F t p"
  by (simp add: statSync_isDirectory_def split: option.splits)

lemma exists_cong: "resolve t' p = resolve t p \<Longrightarrow> existsSync F t' p = existsSync F t p"
  by (simp add: existsSync_def exists_at_def split: option.splits)

lemma read_cong:
  "resolve t' p = resolve t p \<Longrightarrow> readFileSync_utf8 F t' p = readFileSync_utf8 F t p"
  by (simp add: readFileSync_utf8_def split: option.splits)

lemma readdir_cong: "resolve t' p = resolve t p \<Longrightarrow> readdirSync F t' p = readdirSync F t p"
  by (simp add: readdirSync_def split: option.splits)

text \<open>Two states that agree outside the target directory and on which paths are directories.\<close>

lemma migrate_mw_sim:
  assumes "migrate_mw F mw s = (None, s')"
    and src: "\<And>q. outside targetDir q \<Longrightarrow> resolve (root u) q = resolve (root s) q"
    and dirs: "\<And>q. is_dir (root u) q = is_dir (root s) q"
  shows "\<exists>u'. migrate_mw F mw u = (None, u')"
proof -
  have p1: "resolve (root u) (sourceDir @ [mw]) = resolve (root s) (sourceDir @ [mw])"
    using source_outside_target by (rule src)
  have p2: "resolve (root u) (sourceDir @ [mw, js ''README.md''])
      = resolve (root s) (sourceDir @ [mw, js ''README.md''])"
    using source_outside_target by (rule src)
  note c = stat_cong[OF p1, of F] exists_cong[OF p2] read_cong[OF p2, of F]
  show ?thesis
  proof (cases "statSync_isDirectory F (root s) (sourceDir @ [mw]) = Inr True
      \<and> existsSync F (root s) (sourceDir @ [mw, js ''README.md''])")
    case False
    with assms(1) c show ?thesis
      by (auto simp: migrate_mw_def path_join_def Let_def split: sum.splits if_splits)
  next
    case True
    with assms(1) obtain content r where
      rd: "readFileSync_utf8 F (root s) (sourceDir @ [mw, js ''README.md'']) = Inr content" and
      wr: "writeFileSync F (root s) (targetDir @ [mw @ js ''.md'']) content = Inr r"
      by (auto simp: migrate_mw_def path_join_def Let_def split: sum.splits if_splits)
    from wr have "\<exists>r. writeFileSync F (root s) (targetDir @ [mw @ js ''.md'']) content = Inr r"
      by blast
    then have "\<exists>r. writeFileSync F (root u) (targetDir @ [mw @ js ''.md'']) content = Inr r"
      unfolding writeFileSync_succeeds by (simp add: dirs)
    then obtain r' where "writeFileSync F (root u) (targetDir @ [mw @ js ''.md'']) content = Inr r'"
      by blast
    with True rd c show ?thesis
      by (simp add: migrate_mw_def path_join_def Let_def)
  qed
qed

lemma forEach_mw_sim:
  assumes "forEach_mw F mws s = (None, s')"
    and "\<And>q. outside targetDir q \<Longrightarrow> resolve (root u) q = resolve (root s) q"
    and "\<And>q. is_dir (root u) q = is_dir (root s) q"
  shows "\<exists>u'. forEach_mw F mws u = (None, u')"
  using assms
proof (induction mws arbitrary: s u)
  case Nil
  then show ?case by simp
next
  case (Cons mw mws)
  obtain e1 s1 where st: "migrate_mw F mw s = (e1, s1)" by (cases "migrate_mw F mw s")
  with Cons.prems(1) have e1: "e1 = None" and rest: "forEach_mw F mws s1 = (None, s')"
    by (auto split: option.splits)
  from migrate_mw_sim[OF st[unfolded e1] Cons.prems(2,3)]
  obtain u1 where su: "migrate_mw F mw u = (None, u1)" by blast
  have a: "resolve (root u1) q = resolve (root s1) q" if "outside targetDir q" for q
    using migrate_mw_frame(1)[OF su that] migrate_mw_frame(1)[OF st that] Cons.prems(2)[OF that]
    by simp
  have b: "is_dir (root u1) q = is_dir (root s1) q" for q
    using migrate_mw_frame(2)[OF su] migrate_mw_frame(2)[OF st] Cons.prems(3) by simp
  from Cons.IH[OF rest a b] obtain u' where "forEach_mw F mws u1 = (None, u')" by blast
  with su show ?case by simp
qed

lemma write_pages_file_other:
  assumes "write_pages F t = (None, s)"
    and "p \<noteq> targetDir @ [js ''index.md'']"
    and "\<And>mw. mw \<in> set (middlewareList s) \<Longrightarrow> p \<noteq> targetDir @ [mw @ js ''.md'']"
  shows "file_at (root s) p = file_at t p"
proof -
  from assms(1) obtain r1 es s2 r3 where
    e: "ensure_dir F t targetDir = Inr r1" and
    "F (ReaddirSync sourceDir) = None" and
    "resolve r1 sourceDir = Inr (Dir es)" and
    f: "forEach_mw F (map fst es) \<lparr>root = r1, stdout = [], middlewareList = []\<rparr> = (None, s2)" and
    "F (WriteFileSync (targetDir @ [js ''index.md''])) = None" and
    w: "write_at (root s2) (targetDir @ [js ''index.md''])
       (utf8_encode (indexContent (middlewareList s2))) = Inr r3" and
    s: "s = s2\<lparr>root := r3\<rparr>"
    by (rule write_pages_NoneE)
  have ml: "middlewareList s = filter (has_readme F r1) (map fst es)"
    using forEach_mw_None(1)[OF f] s by simp
  have "file_at (root s) p = file_at (root s2) p"
    using w s assms(2) by (simp add: file_at_write)
  also have "\<dots> = file_at (root \<lparr>root = r1, stdout = [], middlewareList = []\<rparr>) p"
  proof (rule forEach_mw_file_unlisted[OF f])
    fix y assume "y \<in> set (map fst es)"
      and "has_readme F (root \<lparr>root = r1, stdout = [], middlewareList = []\<rparr>) y"
    with ml have "y \<in> set (middlewareList s)" by simp
    then show "p \<noteq> targetDir @ [y @ js ''.md'']" by (rule assms(3))
  qed
  also have "\<dots> = file_at t p" using ensure_dir_file_at[OF e] by simp
  finally show ?thesis .
qed

lemma write_pages_again:
  assumes "write_pages F t = (None, s)"
  shows "\<exists>s'. write_pages F (root s) = (None, s')
           \<and> middlewareList s' = middlewareList s \<and> stdout s' = stdout s
           \<and> (\<forall>q. is_dir (root s') q = is_dir (root s) q)"
proof -
  from assms obtain r1 es s2 r3 where
    e: "ensure_dir F t targetDir = Inr r1" and
    fl: "F (ReaddirSync sourceDir) = None" and
    l: "resolve r1 sourceDir = Inr (Dir es)" and
    f: "forEach_mw F (map fst es) \<lparr>root = r1, stdout = [], middlewareList = []\<rparr> = (None, s2)" and
    fw: "F (WriteFileSync (targetDir @ [js ''index.md''])) = None" and
    w: "write_at (root s2) (targetDir @ [js ''index.md''])
       (utf8_encode (indexContent (middlewareList s2))) = Inr r3" and
    s: "s = s2\<lparr>root := r3\<rparr>"
    by (rule write_pages_NoneE)
  let ?s1 = "\<lparr>root = r1, stdout = [], middlewareList = []\<rparr>"
  let ?u1 = "\<lparr>root = r3, stdout = [], middlewareList = []\<rparr>"
  let ?idx = "targetDir @ [js ''index.md'']"
  \<comment> \<open>what the first run left\<close>
  have d3: "is_dir r3 q = is_dir r1 q" for q
    using is_dir_write[OF w] forEach_mw_frame(2)[OF f] by simp
  have o3: "resolve r3 q = resolve r1 q" if "outside targetDir q" for q
    using resolve_write_other[OF w] outside_snoc[OF that] forEach_mw_frame(1)[OF f that] by simp
  from w have "\<exists>t'. write_at (root s2) ?idx (utf8_encode (indexContent (middlewareList s2))) = Inr t'"
    by blast
  then have "is_dir (root s2) targetDir" unfolding write_at_succeeds by simp
  then have td: "is_dir r3 targetDir" using is_dir_write[OF w] by simp
  have fi: "\<not> is_dir r3 ?idx"
    using resolve_write_same[OF w] by (simp add: is_dir_def)
  \<comment> \<open>the second run\<close>
  have e': "ensure_dir F r3 targetDir = Inr r3"
  proof (cases "existsSync F r3 targetDir")
    case True
    then show ?thesis by (simp add: ensure_dir_def)
  next
    case False
    from td have "exists_at r3 targetDir"
      by (auto simp: is_dir_def exists_at_def split: sum.splits)
    with False obtain x where x: "F (ExistsSync targetDir) = Some x"
      by (auto simp: existsSync_def split: option.splits)
    then have "\<not> existsSync F t targetDir" by (simp add: existsSync_def)
    with e have "F (MkdirSync targetDir) = None"
      by (auto simp: ensure_dir_def mkdirSync_recursive_def split: option.splits)
    with False td show ?thesis
      by (simp add: ensure_dir_def mkdirSync_recursive_def mkdir_p_existing)
  qed
  have "resolve r3 sourceDir = Inr (Dir es)"
    using o3[of sourceDir] source_outside_target[of "[]"] l by simp
  with fl have l': "readdirSync F r3 sourceDir = Inr (map fst es)"
    by (simp add: readdirSync_def)
  from forEach_mw_sim[OF f, of ?u1] o3 d3
  obtain u2 where f': "forEach_mw F (map fst es) ?u1 = (None, u2)" by auto
  have same: "has_readme F r3 x = has_readme F r1 x" for x
    using o3 by (rule has_readme_cong)
  have ml: "middlewareList u2 = middlewareList s2"
    using forEach_mw_None(1)[OF f'] forEach_mw_None(1)[OF f] same by (simp cong: filter_cong)
  have so: "stdout u2 = stdout s2"
    using forEach_mw_None(2)[OF f'] forEach_mw_None(2)[OF f] same by (simp cong: filter_cong)
  have du: "is_dir (root u2) q = is_dir r3 q" for q
    using forEach_mw_frame(2)[OF f'] by simp
  have "\<exists>r. writeFileSync F (root u2) ?idx (indexContent (middlewareList u2)) = Inr r"
    unfolding writeFileSync_succeeds using fw td fi by (simp add: du)
  then obtain r4 where w': "writeFileSync F (root u2) ?idx (indexContent (middlewareList u2)) = Inr r4"
    by blast
  then have w'': "write_at (root u2) ?idx (utf8_encode (indexContent (middlewareList u2))) = Inr r4"
    by (auto simp: writeFileSync_def split: option.splits)
  from e' l' f' w' have "write_pages F r3 = (None, u2\<lparr>root := r4\<rparr>)"
    by (simp add: write_pages_def path_join_def)
  moreover have "is_dir r4 q = is_dir r3 q" for q
    using is_dir_write[OF w''] du by simp
  ultimately show ?thesis using s ml so by simp
qed

lemma write_pages_same_files:
  assumes a: "write_pages F t = (None, s)" and b: "write_pages F (root s) = (None, s')"
    and ml: "middlewareList s' = middlewareList s"
  shows "file_at (root s') p = file_at (root s) p"
proof (cases "p = targetDir @ [js ''index.md'']")
  case True
  with write_pages_files(1)[OF a] write_pages_files(1)[OF b] ml show ?thesis by simp
next
  case idx: False
  show ?thesis
  proof (cases "\<exists>mw \<in> set (middlewareList s). p = targetDir @ [mw @ js ''.md'']")
    case False
    with write_pages_file_other[OF b idx] ml show ?thesis by auto
  next
    case True
    then obtain mw where mw: "mw \<in> set (middlewareList s)" and p: "p = targetDir @ [mw @ js ''.md'']"
      by blast
    from idx p have ne: "mw \<noteq> js ''index''" by (auto simp: js_def)
    from write_pages_files(3)[OF a ne mw] obtain c where
      c: "file_at t (sourceDir @ [mw, js ''README.md'']) = Some c" and
      fc: "file_at (root s) p = Some (utf8_encode (utf8_decode c))"
      using p by blast
    from write_pages_files(3)[OF b ne] mw ml obtain c' where
      c': "file_at (root s) (sourceDir @ [mw, js ''README.md'']) = Some c'" and
      fc': "file_at (root s') p = Some (utf8_encode (utf8_decode c'))"
      using p by auto
    have "file_at (root s) (sourceDir @ [mw, js ''README.md'']) = file_at t (sourceDir @ [mw, js ''README.md''])"
      using write_pages_frame[OF a source_outside_target] by (rule file_at_cong)
    with c c' have "c' = c" by simp
    with fc fc' show ?thesis by simp
  qed
qed

lemma example_rerun: "migrate no_faults (root example_final) = (None, example_final)"
  by (simp add: eval_defs example_final_def)

lemma join_single: "join [c] xs = butlast (concat (map (\<lambda>x. x @ [c]) xs))"
  by (induction "[c]" xs rule: join.induct) (simp_all add: butlast_append)

lemma write_pages_migrate:
  assumes "write_pages F t = (None, s3)"
  shows "root (snd (migrate F t)) = root s3"
    and "middlewareList (snd (migrate F t)) = middlewareList s3"
    and "fst (migrate F t) = None \<Longrightarrow>
           stdout (snd (migrate F t)) =
             stdout s3 @ [js ''Middleware List for Sidebar:'', JSON_stringify (middlewareList s3)]"
  using assms by (auto simp: migrate_def console_log_def split: sum.splits)

lemma indexContent_eq:
  "indexContent list =
     js ''# Middleware'' @ [0x0A, 0x0A]
     @ js ''Goryu comes with a rich set of built-in middlewares.'' @ [0x0A, 0x0A]
     @ js ''## Available Middleware'' @ [0x0A, 0x0A]
     @ butlast (concat (map (\<lambda>mw. js ''- ['' @ mw @ js ''](/middleware/'' @ mw @ js '')'' @ [0x0A]) list))
     @ [0x0A]"
  by (simp add: indexContent_def index_heading_def nl_def join_single index_link_def comp_def)

lemma quote_units_plain:
  "\<forall>u \<in> set n. 0x20 \<le> unat u \<and> u \<noteq> 0x22 \<and> u \<noteq> 0x5C \<and> unat u < 0xD800 \<Longrightarrow> quote_units n = n"
proof (induction n)
  case Nil
  then show ?case by simp
next
  case (Cons u n)
  then have a: "0x20 \<le> unat u" "u \<noteq> 0x22" "u \<noteq> 0x5C" "unat u < 0xD800" by simp_all
  have ne: "u \<noteq> 8" "u \<noteq> 9" "u \<noteq> 10" "u \<noteq> 12" "u \<noteq> 13" using a(1) by auto
  have "quote_unit u = [u]" using a ne by (simp add: quote_unit_def)
  with Cons a show ?case by (simp add: Let_def)
qed

lemma JSON_stringify_plain:
  assumes "\<forall>n \<in> set list. \<forall>u \<in> set n. 0x20 \<le> unat u \<and> u \<noteq> 0x22 \<and> u \<noteq> 0x5C \<and> unat u < 0xD800"
  shows "JSON_stringify list =
           [0x5B] @ butlast (concat (map (\<lambda>n. [0x22] @ n @ [0x22] @ [0x2C]) list)) @ [0x5D]"
proof -
  have "map (\<lambda>x. quote_json x @ [0x2C]) list = map (\<lambda>n. [0x22] @ n @ [0x22] @ [0x2C]) list"
    using assms by (simp add: quote_json_def quote_units_plain)
  then have "join [0x2C] (map quote_json list)
      = butlast (concat (map (\<lambda>n. [0x22] @ n @ [0x22] @ [0x2C]) list))"
    by (simp only: join_single map_map comp_def)
  then show ?thesis
    by (simp add: JSON_stringify_def js_def)
qed

lemma stale_pages: "write_pages no_faults stale_tree = (None, stale_final\<lparr>stdout := [js ''Migrated auth'', js ''Migrated cors'']\<rparr>)"
  by (simp add: eval_defs stale_final_def)

lemma locked_pages:
  "write_pages readme_hidden locked_tree = (None, locked_final\<lparr>stdout := [js ''Migrated open'']\<rparr>)"
  by (simp add: eval_defs locked_final_def)

lemma clash_pages:
  "write_pages no_faults clash_tree
     = (None, clash_final\<lparr>stdout := [js ''Migrated cafe'', js ''Migrated index'']\<rparr>)"
  by (simp add: eval_defs clash_final_def)

lemma example_pages:
  "write_pages no_faults example_tree = (None, example_final\<lparr>stdout := [js ''Migrated auth'']\<rparr>)"
  by (simp add: eval_defs example_final_def)

lemma existsSync_iff:
  "existsSync F t p \<longleftrightarrow> F (ExistsSync p) = None \<and> (\<exists>x. resolve t p = Inr x)"
  by (auto simp: existsSync_def exists_at_def split: option.splits sum.splits)

lemmas remaining_defs = copy_mapping_def path_dirname_def project_root_def tutorial_mapping_def
  db_mapping_def remaining_tree_def remaining_final_def remaining_guide_def remaining_copied_def
  latin1_tree_def blocked_tree_def
  tutorial_hidden_def

lemma copy_mapping_unfold:
  "copy_mapping F m w =
     (case ensure_dir F (root w) (path_dirname (path_resolve project_root (dest m))) of
        Inl e \<Rightarrow> (Some e, w)
      | Inr r1 \<Rightarrow>
          if existsSync F r1 (path_resolve project_root (src m)) then
            (case readFileSync_utf8 F r1 (path_resolve project_root (src m)) of
               Inl e \<Rightarrow> (Some e, \<lparr>root = r1, stdout = stdout w\<rparr>)
             | Inr content \<Rightarrow>
                 (case writeFileSync F r1 (path_resolve project_root (dest m)) content of
                    Inl e \<Rightarrow> (Some e, \<lparr>root = r1, stdout = stdout w\<rparr>)
                  | Inr r2 \<Rightarrow>
                      (None, \<lparr>root = r2,
                              stdout = stdout w @ [js ''Migrated '' @ src m @ js '' -> '' @ dest m]\<rparr>)))
          else (None, \<lparr>root = r1,
                       stdout = stdout w @ [js ''WARNING: Source not found: '' @ src m]\<rparr>))"
  by (simp add: copy_mapping_def Let_def console_log_def split: sum.splits)

section \<open>The claims\<close>

text \<open>
  C3: once lines 7 to 39 have run through, \<open>index.md\<close> of the target directory holds,
  whatever was there before and whether or not the later read of the configuration
  succeeds, the fixed heading followed by one line \<open>- [name](/middleware/name)\<close> for
  every collected name, the names in the order in which the directory listing gave them.
\<close>

theorem index_page_written:
  assumes "write_pages F t = (None, s3)"
  shows "\<exists>es. resolve t sourceDir = Inr (Dir es)
           \<and> middlewareList (snd (migrate F t)) =
                filter (\<lambda>mw. is_dir t (sourceDir @ [mw])
                             \<and> existsSync F t (sourceDir @ [mw, js ''README.md''])) (map fst es)
           \<and> file_at (root (snd (migrate F t))) (targetDir @ [js ''index.md'']) =
                Some (utf8_encode
                  (js ''# Middleware'' @ [0x0A, 0x0A]
                   @ js ''Goryu comes with a rich set of built-in middlewares.'' @ [0x0A, 0x0A]
                   @ js ''## Available Middleware'' @ [0x0A, 0x0A]
                   @ butlast (concat (map (\<lambda>mw. js ''- ['' @ mw @ js ''](/middleware/'' @ mw
                                                  @ js '')'' @ [0x0A])
                                          (middlewareList (snd (migrate F t)))))
                   @ [0x0A]))"
proof -
  note m = write_pages_migrate(1,2)[OF assms]
  from write_pages_listing[OF assms] obtain es where
    es: "resolve t sourceDir = Inr (Dir es)" and
    ml: "middlewareList s3 = filter (has_readme F t) (map fst es)"
    by blast
  have "has_readme F t = (\<lambda>mw. is_dir t (sourceDir @ [mw])
                             \<and> existsSync F t (sourceDir @ [mw, js ''README.md'']))"
    by (simp add: has_readme_def path_join_def fun_eq_iff)
  with ml have ml': "middlewareList s3 =
      filter (\<lambda>mw. is_dir t (sourceDir @ [mw])
                   \<and> existsSync F t (sourceDir @ [mw, js ''README.md''])) (map fst es)"
    by simp
  have "file_at (root s3) (targetDir @ [js ''index.md''])
      = Some (utf8_encode (indexContent (middlewareList s3)))"
    using assms by (rule write_pages_files(1))
  then show ?thesis
    using es ml' unfolding m indexContent_eq by blast
qed

theorem index_page_written_witness:
  "write_pages no_faults stale_tree
     = (None, stale_final\<lparr>stdout := [js ''Migrated auth'', js ''Migrated cors'']\<rparr>)
   \<and> file_at stale_tree (targetDir @ [js ''index.md'']) = Some (ascii ''stale'')
   \<and> readdirSync no_faults stale_tree sourceDir = Inr [js ''auth'', js ''cors'', js ''empty'']
   \<and> middlewareList (snd (migrate no_faults stale_tree)) = [js ''auth'', js ''cors'']
   \<and> file_at (root (snd (migrate no_faults stale_tree))) (targetDir @ [js ''index.md''])
       = Some (ascii ''# Middleware'' @ [0x0A, 0x0A]
               @ ascii ''Goryu comes with a rich set of built-in middlewares.'' @ [0x0A, 0x0A]
               @ ascii ''## Available Middleware'' @ [0x0A, 0x0A]
               @ ascii ''- [auth](/middleware/auth)'' @ [0x0A]
               @ ascii ''- [cors](/middleware/cors)'' @ [0x0A])"
proof -
  have old: "file_at stale_tree (targetDir @ [js ''index.md'']) = Some (ascii ''stale'')"
    by (simp add: eval_defs)
  have ls: "readdirSync no_faults stale_tree sourceDir = Inr [js ''auth'', js ''cors'', js ''empty'']"
    by (simp add: eval_defs)
  have l: "middlewareList (snd (migrate no_faults stale_tree)) = [js ''auth'', js ''cors'']"
    by (simp add: stale_run stale_final_def)
  from index_page_written[OF stale_pages]
  have "file_at (root (snd (migrate no_faults stale_tree))) (targetDir @ [js ''index.md'']) =
                Some (utf8_encode
                  (js ''# Middleware'' @ [0x0A, 0x0A]
                   @ js ''Goryu comes with a rich set of built-in middlewares.'' @ [0x0A, 0x0A]
                   @ js ''## Available Middleware'' @ [0x0A, 0x0A]
                   @ butlast (concat (map (\<lambda>mw. js ''- ['' @ mw @ js ''](/middleware/'' @ mw
                                                  @ js '')'' @ [0x0A])
                                          (middlewareList (snd (migrate no_faults stale_tree)))))
                   @ [0x0A]))"
    by blast
  then have "file_at (root (snd (migrate no_faults stale_tree))) (targetDir @ [js ''index.md''])
       = Some (ascii ''# Middleware'' @ [0x0A, 0x0A]
               @ ascii ''Goryu comes with a rich set of built-in middlewares.'' @ [0x0A, 0x0A]
               @ ascii ''## Available Middleware'' @ [0x0A, 0x0A]
               @ ascii ''- [auth](/middleware/auth)'' @ [0x0A]
               @ ascii ''- [cors](/middleware/cors)'' @ [0x0A])"
    unfolding l by (simp add: js_def ascii_def encode_cp_def)
  with stale_pages old ls l show ?thesis by (intro conjI)
qed

text \<open>
  C1 (as amended): once lines 7 to 39 have run through, every immediate subdirectory of
  the source directory, other than one named \<open>index\<close>, that holds a file \<open>README.md\<close>
  which \<open>existsSync\<close> can reach has in the target directory the file
  \<open><subdirectory>.md\<close>, which holds the text of that README encoded again as UTF-8: the
  very bytes of the README when these are well-formed UTF-8.
\<close>

theorem readme_copied:
  assumes "write_pages F t = (None, s3)"
    and "is_dir t (sourceDir @ [mw])"
    and "file_at t (sourceDir @ [mw, js ''README.md'']) = Some b"
    and "F (ExistsSync (sourceDir @ [mw, js ''README.md''])) = None"
    and "mw \<noteq> js ''index''"
  shows "file_at (root (snd (migrate F t))) (targetDir @ [mw @ js ''.md''])
           = Some (utf8_encode (utf8_decode b))
       \<and> (well_formed_utf8 b \<longrightarrow>
            file_at (root (snd (migrate F t))) (targetDir @ [mw @ js ''.md'']) = Some b)"
proof -
  note m = write_pages_migrate(1)[OF assms(1)]
  from write_pages_listing[OF assms(1)] obtain es where
    es: "resolve t sourceDir = Inr (Dir es)" and
    ml: "middlewareList s3 = filter (has_readme F t) (map fst es)"
    by blast
  have "mw \<in> set (map fst es)" using assms(2) es by (rule listed_in_source)
  moreover have "has_readme F t mw"
    using assms(2,3,4)
    by (auto simp: has_readme_def path_join_def existsSync_def exists_at_def file_at_def
        split: sum.splits)
  ultimately have "mw \<in> set (middlewareList s3)" using ml by simp
  from write_pages_files(3)[OF assms(1,5) this] assms(3)
  have "file_at (root s3) (targetDir @ [mw @ js ''.md'']) = Some (utf8_encode (utf8_decode b))"
    by simp
  then show ?thesis unfolding m by (simp add: utf8_roundtrip)
qed

theorem readme_copied_witness:
  "write_pages no_faults example_tree = (None, example_final\<lparr>stdout := [js ''Migrated auth'']\<rparr>)
   \<and> is_dir example_tree (sourceDir @ [js ''auth''])
   \<and> file_at example_tree (sourceDir @ [js ''auth'', js ''README.md'']) = Some (ascii ''# Auth'')
   \<and> no_faults (ExistsSync (sourceDir @ [js ''auth'', js ''README.md''])) = None
   \<and> js ''auth'' \<noteq> js ''index''
   \<and> well_formed_utf8 (ascii ''# Auth'')
   \<and> file_at (root (snd (migrate no_faults example_tree))) (targetDir @ [js ''auth'' @ js ''.md''])
       = Some (ascii ''# Auth'')"
proof -
  have dir: "is_dir example_tree (sourceDir @ [js ''auth''])"
    by (simp add: eval_defs)
  have readme: "file_at example_tree (sourceDir @ [js ''auth'', js ''README.md'']) = Some (ascii ''# Auth'')"
    by (simp add: eval_defs)
  have nf: "no_faults (ExistsSync (sourceDir @ [js ''auth'', js ''README.md''])) = None"
    by (simp add: no_faults_def)
  have ne: "js ''auth'' \<noteq> js ''index''"
    by (simp add: js_def)
  have wf: "well_formed_utf8 (ascii ''# Auth'')"
    by (simp add: ascii_def)
  from readme_copied[OF example_pages dir readme nf ne] wf
  have "file_at (root (snd (migrate no_faults example_tree))) (targetDir @ [js ''auth'' @ js ''.md''])
       = Some (ascii ''# Auth'')"
    by blast
  with example_pages dir readme nf ne wf show ?thesis by (intro conjI)
qed

theorem readme_copied_counterexample:
  "migrate no_faults clash_tree = (None, clash_final)
   \<and> is_dir clash_tree (sourceDir @ [js ''index''])
   \<and> file_at clash_tree (sourceDir @ [js ''index'', js ''README.md'']) = Some (ascii ''# Index topic'')
   \<and> file_at (root clash_final) (targetDir @ [js ''index'' @ js ''.md''])
       \<noteq> Some (ascii ''# Index topic'')
   \<and> is_dir clash_tree (sourceDir @ [js ''cafe''])
   \<and> file_at clash_tree (sourceDir @ [js ''cafe'', js ''README.md'']) = Some [0x63, 0x61, 0x66, 0xE9]
   \<and> file_at (root clash_final) (targetDir @ [js ''cafe'' @ js ''.md''])
       = Some [0x63, 0x61, 0x66, 0xEF, 0xBF, 0xBD]
   \<and> migrate readme_hidden locked_tree = (None, locked_final)
   \<and> is_dir locked_tree (sourceDir @ [js ''locked''])
   \<and> file_at locked_tree (sourceDir @ [js ''locked'', js ''README.md'']) = Some (ascii ''# Locked'')
   \<and> file_at (root locked_final) (targetDir @ [js ''locked'' @ js ''.md'']) = None"
proof -
  have d1: "is_dir clash_tree (sourceDir @ [js ''index''])"
    by (simp add: eval_defs)
  have r1: "file_at clash_tree (sourceDir @ [js ''index'', js ''README.md'']) = Some (ascii ''# Index topic'')"
    by (simp add: eval_defs)
  have o1: "file_at (root clash_final) (targetDir @ [js ''index'' @ js ''.md''])
       \<noteq> Some (ascii ''# Index topic'')"
    by (simp add: eval_defs clash_final_def)
  have d2: "is_dir clash_tree (sourceDir @ [js ''cafe''])"
    by (simp add: eval_defs)
  have r2: "file_at clash_tree (sourceDir @ [js ''cafe'', js ''README.md'']) = Some [0x63, 0x61, 0x66, 0xE9]"
    by (simp add: eval_defs)
  have o2: "file_at (root clash_final) (targetDir @ [js ''cafe'' @ js ''.md''])
       = Some [0x63, 0x61, 0x66, 0xEF, 0xBF, 0xBD]"
    by (simp add: eval_defs clash_final_def)
  have d3: "is_dir locked_tree (sourceDir @ [js ''locked''])"
    by (simp add: eval_defs)
  have r3: "file_at locked_tree (sourceDir @ [js ''locked'', js ''README.md'']) = Some (ascii ''# Locked'')"
    by (simp add: eval_defs)
  have o3: "file_at (root locked_final) (targetDir @ [js ''locked'' @ js ''.md'']) = None"
    by (simp add: eval_defs locked_final_def)
  from clash_run d1 r1 o1 d2 r2 o2 locked_run d3 r3 o3 show ?thesis by (intro conjI)
qed

text \<open>
  C2 (as amended): once lines 7 to 39 have run through, the migration list is the listing
  of the source directory, in its order, cut down to the entries that are directories
  and in which \<open>existsSync\<close> finds \<open>README.md\<close>, that is, those whose README exists and can
  be reached by the check (the README is then a file).  The index page and the printed
  list are made from this list.  For a name that is not in the list the run leaves
  \<open><name>.md\<close> in the target directory as it was, but for \<open>index.md\<close>, which is always
  written: it is the index page.
\<close>

theorem listed_iff_readme:
  assumes "write_pages F t = (None, s3)"
  shows "\<exists>es. resolve t sourceDir = Inr (Dir es)
           \<and> middlewareList (snd (migrate F t)) =
                filter (\<lambda>mw. is_dir t (sourceDir @ [mw])
                             \<and> F (ExistsSync (sourceDir @ [mw, js ''README.md''])) = None
                             \<and> (\<exists>x. resolve t (sourceDir @ [mw, js ''README.md'']) = Inr x))
                       (map fst es)
           \<and> (\<forall>mw \<in> set (middlewareList (snd (migrate F t))).
                 \<exists>b. file_at t (sourceDir @ [mw, js ''README.md'']) = Some b)
           \<and> (\<forall>mw. mw \<notin> set (middlewareList (snd (migrate F t))) \<and> mw \<noteq> js ''index'' \<longrightarrow>
                 file_at (root (snd (migrate F t))) (targetDir @ [mw @ js ''.md''])
                   = file_at t (targetDir @ [mw @ js ''.md'']))
           \<and> file_at (root (snd (migrate F t))) (targetDir @ [js ''index'' @ js ''.md'']) =
                Some (utf8_encode
                  (js ''# Middleware'' @ [0x0A, 0x0A]
                   @ js ''Goryu comes with a rich set of built-in middlewares.'' @ [0x0A, 0x0A]
                   @ js ''## Available Middleware'' @ [0x0A, 0x0A]
                   @ butlast (concat (map (\<lambda>mw. js ''- ['' @ mw @ js ''](/middleware/'' @ mw
                                                  @ js '')'' @ [0x0A])
                                          (middlewareList (snd (migrate F t)))))
                   @ [0x0A]))
           \<and> (fst (migrate F t) = None \<longrightarrow>
                 stdout (snd (migrate F t)) =
                   map (\<lambda>mw. js ''Migrated '' @ mw) (middlewareList (snd (migrate F t)))
                   @ [js ''Middleware List for Sidebar:'',
                      JSON_stringify (middlewareList (snd (migrate F t)))])
           \<and> ((\<forall>n \<in> set (middlewareList (snd (migrate F t))).
                   \<forall>u \<in> set n. 0x20 \<le> unat u \<and> u \<noteq> 0x22 \<and> u \<noteq> 0x5C \<and> unat u < 0xD800) \<longrightarrow>
                 JSON_stringify (middlewareList (snd (migrate F t))) =
                   [0x5B] @ butlast (concat (map (\<lambda>n. [0x22] @ n @ [0x22] @ [0x2C])
                                                 (middlewareList (snd (migrate F t))))) @ [0x5D])"
proof -
  note m = write_pages_migrate(1,2)[OF assms]
  let ?L = "middlewareList (snd (migrate F t))"
  let ?R = "root (snd (migrate F t))"
  from write_pages_listing[OF assms] obtain es where
    es: "resolve t sourceDir = Inr (Dir es)" and
    ml: "middlewareList s3 = filter (has_readme F t) (map fst es)" and
    out: "stdout s3 = map (\<lambda>mw. js ''Migrated '' @ mw) (middlewareList s3)"
    by blast
  have "has_readme F t = (\<lambda>mw. is_dir t (sourceDir @ [mw])
                             \<and> F (ExistsSync (sourceDir @ [mw, js ''README.md''])) = None
                             \<and> (\<exists>x. resolve t (sourceDir @ [mw, js ''README.md'']) = Inr x))"
    by (simp add: has_readme_def path_join_def fun_eq_iff existsSync_iff)
  with ml have c1: "?L = filter (\<lambda>mw. is_dir t (sourceDir @ [mw])
                             \<and> F (ExistsSync (sourceDir @ [mw, js ''README.md''])) = None
                             \<and> (\<exists>x. resolve t (sourceDir @ [mw, js ''README.md'']) = Inr x))
                       (map fst es)"
    unfolding m by simp
  have c2: "\<forall>mw \<in> set ?L. \<exists>b. file_at t (sourceDir @ [mw, js ''README.md'']) = Some b"
    unfolding m using write_pages_files(4)[OF assms] by blast
  have c3: "\<forall>mw. mw \<notin> set ?L \<and> mw \<noteq> js ''index'' \<longrightarrow>
      file_at ?R (targetDir @ [mw @ js ''.md'']) = file_at t (targetDir @ [mw @ js ''.md''])"
    unfolding m using write_pages_files(2)[OF assms] by blast
  have "js ''index'' @ js ''.md'' = js ''index.md''" by (simp add: js_def)
  with write_pages_files(1)[OF assms]
  have "file_at ?R (targetDir @ [js ''index'' @ js ''.md''])
      = Some (utf8_encode (indexContent ?L))"
    unfolding m by simp
  then have c4: "file_at ?R (targetDir @ [js ''index'' @ js ''.md'']) =
                Some (utf8_encode
                  (js ''# Middleware'' @ [0x0A, 0x0A]
                   @ js ''Goryu comes with a rich set of built-in middlewares.'' @ [0x0A, 0x0A]
                   @ js ''## Available Middleware'' @ [0x0A, 0x0A]
                   @ butlast (concat (map (\<lambda>mw. js ''- ['' @ mw @ js ''](/middleware/'' @ mw
                                                  @ js '')'' @ [0x0A]) ?L))
                   @ [0x0A]))"
    unfolding indexContent_eq .
  have c5: "fst (migrate F t) = None \<longrightarrow>
      stdout (snd (migrate F t)) =
        map (\<lambda>mw. js ''Migrated '' @ mw) ?L @ [js ''Middleware List for Sidebar:'', JSON_stringify ?L]"
    unfolding m using write_pages_migrate(3)[OF assms] out by simp
  have c6: "(\<forall>n \<in> set ?L. \<forall>u \<in> set n. 0x20 \<le> unat u \<and> u \<noteq> 0x22 \<and> u \<noteq> 0x5C \<and> unat u < 0xD800) \<longrightarrow>
      JSON_stringify ?L = [0x5B] @ butlast (concat (map (\<lambda>n. [0x22] @ n @ [0x22] @ [0x2C]) ?L)) @ [0x5D]"
    using JSON_stringify_plain[of ?L] by blast
  from es c1 c2 c3 c4 c5 c6 show ?thesis
    by (intro exI[of _ es] conjI)
qed


theorem listed_iff_readme_witness:
  "write_pages no_faults stale_tree
     = (None, stale_final\<lparr>stdout := [js ''Migrated auth'', js ''Migrated cors'']\<rparr>)
   \<and> readdirSync no_faults stale_tree sourceDir = Inr [js ''auth'', js ''cors'', js ''empty'']
   \<and> middlewareList (snd (migrate no_faults stale_tree)) = [js ''auth'', js ''cors'']
   \<and> is_dir stale_tree (sourceDir @ [js ''empty''])
   \<and> \<not> exists_at stale_tree (sourceDir @ [js ''empty'', js ''README.md''])
   \<and> file_at (root (snd (migrate no_faults stale_tree))) (targetDir @ [js ''empty'' @ js ''.md'']) = None
   \<and> file_at (root (snd (migrate no_faults stale_tree))) (targetDir @ [js ''index'' @ js ''.md''])
       = Some (ascii ''# Middleware'' @ [0x0A, 0x0A]
               @ ascii ''Goryu comes with a rich set of built-in middlewares.'' @ [0x0A, 0x0A]
               @ ascii ''## Available Middleware'' @ [0x0A, 0x0A]
               @ ascii ''- [auth](/middleware/auth)'' @ [0x0A]
               @ ascii ''- [cors](/middleware/cors)'' @ [0x0A])
   \<and> stdout (snd (migrate no_faults stale_tree))
       = [js ''Migrated auth'', js ''Migrated cors'', js ''Middleware List for Sidebar:'',
          js ''[\"auth\",\"cors\"]'']"
proof -
  let ?L = "middlewareList (snd (migrate no_faults stale_tree))"
  let ?R = "root (snd (migrate no_faults stale_tree))"
  have ls: "readdirSync no_faults stale_tree sourceDir = Inr [js ''auth'', js ''cors'', js ''empty'']"
    by (simp add: eval_defs)
  have d: "is_dir stale_tree (sourceDir @ [js ''empty''])"
    by (simp add: eval_defs)
  have n: "\<not> exists_at stale_tree (sourceDir @ [js ''empty'', js ''README.md''])"
    by (simp add: eval_defs)
  have before: "file_at stale_tree (targetDir @ [js ''empty'' @ js ''.md'']) = None"
    by (simp add: eval_defs)
  have ok: "fst (migrate no_faults stale_tree) = None"
    by (simp add: stale_run)
  from listed_iff_readme[OF stale_pages] obtain es where
    es: "resolve stale_tree sourceDir = Inr (Dir es)" and
    c1: "?L = filter (\<lambda>mw. is_dir stale_tree (sourceDir @ [mw])
                   \<and> no_faults (ExistsSync (sourceDir @ [mw, js ''README.md''])) = None
                   \<and> (\<exists>x. resolve stale_tree (sourceDir @ [mw, js ''README.md'']) = Inr x))
             (map fst es)" and
    c3: "\<forall>mw. mw \<notin> set ?L \<and> mw \<noteq> js ''index'' \<longrightarrow>
           file_at ?R (targetDir @ [mw @ js ''.md'']) = file_at stale_tree (targetDir @ [mw @ js ''.md''])" and
    c4: "file_at ?R (targetDir @ [js ''index'' @ js ''.md'']) =
                Some (utf8_encode
                  (js ''# Middleware'' @ [0x0A, 0x0A]
                   @ js ''Goryu comes with a rich set of built-in middlewares.'' @ [0x0A, 0x0A]
                   @ js ''## Available Middleware'' @ [0x0A, 0x0A]
                   @ butlast (concat (map (\<lambda>mw. js ''- ['' @ mw @ js ''](/middleware/'' @ mw
                                                  @ js '')'' @ [0x0A]) ?L))
                   @ [0x0A]))" and
    c5: "fst (migrate no_faults stale_tree) = None \<longrightarrow>
           stdout (snd (migrate no_faults stale_tree)) =
             map (\<lambda>mw. js ''Migrated '' @ mw) ?L @ [js ''Middleware List for Sidebar:'', JSON_stringify ?L]" and
    c6: "(\<forall>n \<in> set ?L. \<forall>u \<in> set n. 0x20 \<le> unat u \<and> u \<noteq> 0x22 \<and> u \<noteq> 0x5C \<and> unat u < 0xD800) \<longrightarrow>
           JSON_stringify ?L = [0x5B] @ butlast (concat (map (\<lambda>n. [0x22] @ n @ [0x22] @ [0x2C]) ?L)) @ [0x5D]"
    by (elim exE conjE) (rule that)
  from es ls have names: "map fst es = [js ''auth'', js ''cors'', js ''empty'']"
    by (simp add: readdirSync_def no_faults_def)
  have l: "?L = [js ''auth'', js ''cors'']"
    unfolding c1 names by (simp add: eval_defs)
  have e: "file_at ?R (targetDir @ [js ''empty'' @ js ''.md'']) = None"
    using c3[rule_format, of "js ''empty''"] before unfolding l by (simp add: js_def)
  have p: "file_at ?R (targetDir @ [js ''index'' @ js ''.md''])
       = Some (ascii ''# Middleware'' @ [0x0A, 0x0A]
               @ ascii ''Goryu comes with a rich set of built-in middlewares.'' @ [0x0A, 0x0A]
               @ ascii ''## Available Middleware'' @ [0x0A, 0x0A]
               @ ascii ''- [auth](/middleware/auth)'' @ [0x0A]
               @ ascii ''- [cors](/middleware/cors)'' @ [0x0A])"
    using c4 unfolding l by (simp add: js_def ascii_def encode_cp_def)
  have j: "JSON_stringify [js ''auth'', js ''cors''] = js ''[\"auth\",\"cors\"]''"
    using c6 unfolding l by (simp add: js_def)
  have o: "stdout (snd (migrate no_faults stale_tree))
       = [js ''Migrated auth'', js ''Migrated cors'', js ''Middleware List for Sidebar:'',
          js ''[\"auth\",\"cors\"]'']"
    using c5 ok unfolding l j by (simp add: js_def)
  from stale_pages ls l d n e p o show ?thesis by (intro conjI)
qed

theorem listed_iff_readme_counterexample:
  "migrate readme_hidden locked_tree = (None, locked_final)
   \<and> readdirSync readme_hidden locked_tree sourceDir = Inr [js ''index'', js ''locked'', js ''open'']
   \<and> is_dir locked_tree (sourceDir @ [js ''locked''])
   \<and> file_at locked_tree (sourceDir @ [js ''locked'', js ''README.md'']) = Some (ascii ''# Locked'')
   \<and> js ''locked'' \<notin> set (middlewareList locked_final)
   \<and> is_dir locked_tree (sourceDir @ [js ''index''])
   \<and> \<not> exists_at locked_tree (sourceDir @ [js ''index'', js ''README.md''])
   \<and> file_at locked_tree (targetDir @ [js ''index'' @ js ''.md'']) = None
   \<and> file_at (root locked_final) (targetDir @ [js ''index'' @ js ''.md''])
       = Some (ascii ''# Middleware'' @ [0x0A, 0x0A]
               @ ascii ''Goryu comes with a rich set of built-in middlewares.'' @ [0x0A, 0x0A]
               @ ascii ''## Available Middleware'' @ [0x0A, 0x0A]
               @ ascii ''- [open](/middleware/open)'' @ [0x0A])"
proof -
  have ls: "readdirSync readme_hidden locked_tree sourceDir = Inr [js ''index'', js ''locked'', js ''open'']"
    by (simp add: eval_defs)
  have d1: "is_dir locked_tree (sourceDir @ [js ''locked''])"
    by (simp add: eval_defs)
  have r1: "file_at locked_tree (sourceDir @ [js ''locked'', js ''README.md'']) = Some (ascii ''# Locked'')"
    by (simp add: eval_defs)
  have n1: "js ''locked'' \<notin> set (middlewareList locked_final)"
    by (simp add: locked_final_def js_def)
  have d2: "is_dir locked_tree (sourceDir @ [js ''index''])"
    by (simp add: eval_defs)
  have n2: "\<not> exists_at locked_tree (sourceDir @ [js ''index'', js ''README.md''])"
    by (simp add: eval_defs)
  have b2: "file_at locked_tree (targetDir @ [js ''index'' @ js ''.md'']) = None"
    by (simp add: eval_defs)
  have a2: "file_at (root locked_final) (targetDir @ [js ''index'' @ js ''.md''])
       = Some (ascii ''# Middleware'' @ [0x0A, 0x0A]
               @ ascii ''Goryu comes with a rich set of built-in middlewares.'' @ [0x0A, 0x0A]
               @ ascii ''## Available Middleware'' @ [0x0A, 0x0A]
               @ ascii ''- [open](/middleware/open)'' @ [0x0A])"
    by (simp add: eval_defs locked_final_def)
  from locked_run ls d1 r1 n1 d2 n2 b2 a2 show ?thesis by (intro conjI)
qed

text \<open>
  C6: whatever the outcome of the run, the site configuration \<open>config.mts\<close> is after the
  run what it was before; and a run that completes has printed, after the lines
  \<open>Migrated <name>\<close> of the copies, only the header line and the list of the collected
  names as JSON.
\<close>

theorem config_untouched:
  assumes "migrate F t = (e, s)"
  shows "resolve (root s) configPath = resolve t configPath
       \<and> file_at (root s) configPath = file_at t configPath
       \<and> (e = None \<longrightarrow>
            stdout s = map (\<lambda>mw. js ''Migrated '' @ mw) (middlewareList s)
              @ [js ''Middleware List for Sidebar:'', JSON_stringify (middlewareList s)])"
proof -
  have r: "resolve (root s) configPath = resolve t configPath"
    using assms config_outside_target by (rule migrate_frame)
  then have "file_at (root s) configPath = file_at t configPath" by (rule file_at_cong)
  moreover have "e = None \<longrightarrow>
            stdout s = map (\<lambda>mw. js ''Migrated '' @ mw) (middlewareList s)
              @ [js ''Middleware List for Sidebar:'', JSON_stringify (middlewareList s)]"
    using migrate_listing[of F t s] assms by auto
  ultimately show ?thesis using r by simp
qed

theorem config_untouched_witness:
  "migrate no_faults example_tree = (None, example_final)
   \<and> file_at example_tree configPath = Some (ascii ''export default {}'')
   \<and> file_at (root example_final) configPath = Some (ascii ''export default {}'')
   \<and> stdout example_final
       = [js ''Migrated auth'', js ''Middleware List for Sidebar:'', js ''[\"auth\"]'']"
proof -
  have c: "file_at example_tree configPath = Some (ascii ''export default {}'')"
    by (simp add: eval_defs)
  have l: "middlewareList example_final = [js ''auth'']"
    by (simp add: example_final_def)
  from config_untouched[OF example_run] c
  have c': "file_at (root example_final) configPath = Some (ascii ''export default {}'')"
    by simp
  from config_untouched[OF example_run]
  have "stdout example_final = map (\<lambda>mw. js ''Migrated '' @ mw) (middlewareList example_final)
        @ [js ''Middleware List for Sidebar:'', JSON_stringify (middlewareList example_final)]"
    by blast
  then have "stdout example_final
       = [js ''Migrated auth'', js ''Middleware List for Sidebar:'', js ''[\"auth\"]'']"
    by (simp add: l eval_defs)
  with example_run c c' show ?thesis by (intro conjI)
qed

text \<open>
  C5 (as amended): the script builds the sidebar block, a title entry and one item for
  every collected name whose text is the name with \<open>toUpperCase\<close> applied to its first
  character, but it does not print it: a run that completes prints one line
  \<open>Migrated <name>\<close> for every collected name, then the header line and the list of the
  names as JSON, and no line of the output is the block.
\<close>

theorem sidebar_block_not_printed:
  assumes "migrate F t = (None, s)"
  shows "newSidebarSection up (middlewareList s) =
           js ''      '' @ sq @ js ''/middleware/'' @ sq @ js '': ['' @ nl
           @ js ''        {'' @ nl
           @ js ''          text: '' @ sq @ js ''Middleware'' @ sq @ js '','' @ nl
           @ js ''          items: ['' @ nl
           @ js ''            { text: '' @ sq @ js ''Overview'' @ sq @ js '', link: '' @ sq
               @ js ''/middleware/'' @ sq @ js '' },'' @ nl
           @ join nl (map (sidebar_item up) (middlewareList s)) @ nl
           @ js ''          ]'' @ nl
           @ js ''        }'' @ nl
           @ js ''      ],''
       \<and> (\<forall>mw. sidebar_item up mw =
             js ''            { text: '' @ sq @ up (take 1 mw) @ drop 1 mw @ sq
             @ js '', link: '' @ sq @ js ''/middleware/'' @ mw @ sq @ js '' },'')
       \<and> stdout s = map (\<lambda>mw. js ''Migrated '' @ mw) (middlewareList s)
             @ [js ''Middleware List for Sidebar:'', JSON_stringify (middlewareList s)]
       \<and> newSidebarSection up (middlewareList s) \<notin> set (stdout s)"
proof -
  from migrate_listing[OF assms]
  have out: "stdout s = map (\<lambda>mw. js ''Migrated '' @ mw) (middlewareList s)
             @ [js ''Middleware List for Sidebar:'', JSON_stringify (middlewareList s)]"
    by blast
  have "hd l \<noteq> 0x20" if "l \<in> set (stdout s)" for l
  proof -
    from that out consider mw where "l = js ''Migrated '' @ mw"
      | "l = js ''Middleware List for Sidebar:''" | "l = JSON_stringify (middlewareList s)"
      by auto
    then show ?thesis
    proof cases
      case 1
      then show ?thesis by (simp add: hd_js_Migrated)
    next
      case 2
      then show ?thesis by (simp add: js_def)
    next
      case 3
      then show ?thesis by (simp add: JSON_stringify_def js_def)
    qed
  qed
  then have "newSidebarSection up (middlewareList s) \<notin> set (stdout s)"
    using hd_newSidebarSection[of up "middlewareList s"] by blast
  with out show ?thesis
    by (simp add: newSidebarSection_def sidebarItems_def sidebar_item_def)
qed

theorem sidebar_block_not_printed_witness:
  "migrate no_faults example_tree = (None, example_final)
   \<and> stdout example_final
       = [js ''Migrated auth'', js ''Middleware List for Sidebar:'', js ''[\"auth\"]'']
   \<and> sidebar_item ascii_toUpperCase (js ''auth'')
       = js ''            { text: '' @ sq @ js ''Auth'' @ sq @ js '', link: '' @ sq
         @ js ''/middleware/auth'' @ sq @ js '' },''
   \<and> newSidebarSection ascii_toUpperCase (middlewareList example_final) \<notin> set (stdout example_final)"
proof -
  have l: "middlewareList example_final = [js ''auth'']"
    by (simp add: example_final_def)
  from sidebar_block_not_printed[OF example_run, of ascii_toUpperCase]
  have out: "stdout example_final = map (\<lambda>mw. js ''Migrated '' @ mw) (middlewareList example_final)
        @ [js ''Middleware List for Sidebar:'', JSON_stringify (middlewareList example_final)]"
    and item: "sidebar_item ascii_toUpperCase (js ''auth'') =
             js ''            { text: '' @ sq @ ascii_toUpperCase (take 1 (js ''auth'')) @ drop 1 (js ''auth'') @ sq
             @ js '', link: '' @ sq @ js ''/middleware/'' @ js ''auth'' @ sq @ js '' },''"
    and nin: "newSidebarSection ascii_toUpperCase (middlewareList example_final) \<notin> set (stdout example_final)"
    by blast+
  from out have o: "stdout example_final
       = [js ''Migrated auth'', js ''Middleware List for Sidebar:'', js ''[\"auth\"]'']"
    by (simp add: l eval_defs)
  from item have i: "sidebar_item ascii_toUpperCase (js ''auth'')
       = js ''            { text: '' @ sq @ js ''Auth'' @ sq @ js '', link: '' @ sq
         @ js ''/middleware/auth'' @ sq @ js '' },''"
    by (simp add: js_def ascii_toUpperCase_def)
  from example_run o i nin show ?thesis by (intro conjI)
qed

theorem sidebar_block_counterexample:
  "migrate no_faults example_tree = (None, example_final)
   \<and> stdout example_final
       = [js ''Migrated auth'', js ''Middleware List for Sidebar:'', js ''[\"auth\"]'']
   \<and> newSidebarSection ascii_toUpperCase (middlewareList example_final)
       \<notin> set [js ''Migrated auth'', js ''Middleware List for Sidebar:'', js ''[\"auth\"]'']"
proof -
  have o: "stdout example_final
       = [js ''Migrated auth'', js ''Middleware List for Sidebar:'', js ''[\"auth\"]'']"
    by (simp add: example_final_def eval_defs)
  have "newSidebarSection ascii_toUpperCase (middlewareList example_final)
       \<notin> set [js ''Migrated auth'', js ''Middleware List for Sidebar:'', js ''[\"auth\"]'']"
    by (simp add: example_final_def newSidebarSection_def sidebarItems_def sidebar_item_def
        ascii_toUpperCase_def sq_def nl_def js_def)
  with example_run o show ?thesis by (intro conjI)
qed

text \<open>
  C10: once the copies and the index page are written the script reads the configuration
  file, whatever happened before; when that file does not exist the read throws, and the
  run ends there with the copies and \<open>index.md\<close> on disk and only the lines
  \<open>Migrated <name>\<close> printed.
\<close>

theorem missing_config_throws:
  assumes "write_pages F t = (None, s3)"
  shows "migrate F t =
           (case readFileSync_utf8 F (root s3) configPath of
              Inl e \<Rightarrow> (Some e, s3)
            | Inr c \<Rightarrow> (None, console_log (JSON_stringify (middlewareList s3))
                               (console_log (js ''Middleware List for Sidebar:'') s3)))
       \<and> (\<not> exists_at t configPath \<longrightarrow>
            (\<exists>e. migrate F t = (Some e, s3)
                \<and> (F (ReadFileSync configPath) = None \<longrightarrow> e = ENOENT \<or> e = ENOTDIR))
            \<and> file_at (root s3) (targetDir @ [js ''index.md''])
                = Some (utf8_encode (indexContent (middlewareList s3)))
            \<and> (\<forall>mw \<in> set (middlewareList s3). mw \<noteq> js ''index'' \<longrightarrow>
                  (\<exists>b. file_at t (sourceDir @ [mw, js ''README.md'']) = Some b
                     \<and> file_at (root s3) (targetDir @ [mw @ js ''.md''])
                         = Some (utf8_encode (utf8_decode b))))
            \<and> stdout s3 = map (\<lambda>mw. js ''Migrated '' @ mw) (middlewareList s3))"
proof -
  have m: "migrate F t =
           (case readFileSync_utf8 F (root s3) configPath of
              Inl e \<Rightarrow> (Some e, s3)
            | Inr c \<Rightarrow> (None, console_log (JSON_stringify (middlewareList s3))
                               (console_log (js ''Middleware List for Sidebar:'') s3)))"
    using assms by (simp add: migrate_def)
  have files: "file_at (root s3) (targetDir @ [js ''index.md''])
                = Some (utf8_encode (indexContent (middlewareList s3)))"
    using assms by (rule write_pages_files(1))
  have copies: "\<forall>mw \<in> set (middlewareList s3). mw \<noteq> js ''index'' \<longrightarrow>
                  (\<exists>b. file_at t (sourceDir @ [mw, js ''README.md'']) = Some b
                     \<and> file_at (root s3) (targetDir @ [mw @ js ''.md''])
                         = Some (utf8_encode (utf8_decode b)))"
    using write_pages_files(3)[OF assms] by blast
  have out: "stdout s3 = map (\<lambda>mw. js ''Migrated '' @ mw) (middlewareList s3)"
    using write_pages_listing[OF assms] by blast
  have throws: "\<exists>e. migrate F t = (Some e, s3)
                \<and> (F (ReadFileSync configPath) = None \<longrightarrow> e = ENOENT \<or> e = ENOTDIR)"
    if "\<not> exists_at t configPath"
  proof -
    from that obtain e0 where "resolve t configPath = Inl e0"
      by (auto simp: exists_at_def split: sum.splits)
    with write_pages_frame[OF assms config_outside_target]
    have r: "resolve (root s3) configPath = Inl e0" by simp
    from resolve_errors[OF this] r m show ?thesis
      by (auto simp: readFileSync_utf8_def split: option.splits)
  qed
  from m files copies out throws show ?thesis by blast
qed

theorem missing_config_throws_witness:
  "write_pages no_faults no_config_tree = (None, no_config_pages)
   \<and> \<not> exists_at no_config_tree configPath
   \<and> migrate no_faults no_config_tree = (Some ENOENT, no_config_pages)
   \<and> file_at (root no_config_pages) (targetDir @ [js ''index.md''])
       = Some (utf8_encode (indexContent [js ''auth'']))
   \<and> file_at (root no_config_pages) (targetDir @ [js ''auth.md'']) = Some (ascii ''# Auth'')
   \<and> stdout no_config_pages = [js ''Migrated auth'']"
proof -
  have n: "\<not> exists_at no_config_tree configPath"
    by (simp add: eval_defs)
  have l: "middlewareList no_config_pages = [js ''auth'']"
    by (simp add: no_config_pages_def)
  from missing_config_throws[OF no_config_run] n
  have c: "migrate no_faults no_config_tree =
           (case readFileSync_utf8 no_faults (root no_config_pages) configPath of
              Inl e \<Rightarrow> (Some e, no_config_pages)
            | Inr c \<Rightarrow> (None, console_log (JSON_stringify (middlewareList no_config_pages))
                               (console_log (js ''Middleware List for Sidebar:'') no_config_pages)))"
    and i: "file_at (root no_config_pages) (targetDir @ [js ''index.md''])
                = Some (utf8_encode (indexContent (middlewareList no_config_pages)))"
    and o: "stdout no_config_pages = map (\<lambda>mw. js ''Migrated '' @ mw) (middlewareList no_config_pages)"
    by blast+
  have "readFileSync_utf8 no_faults (root no_config_pages) configPath = Inl ENOENT"
    by (simp add: no_config_pages_def eval_defs)
  with c have m: "migrate no_faults no_config_tree = (Some ENOENT, no_config_pages)"
    by (simp only: sum.case)
  have a: "file_at (root no_config_pages) (targetDir @ [js ''auth.md'']) = Some (ascii ''# Auth'')"
    by (simp add: no_config_pages_def eval_defs)
  from i have i': "file_at (root no_config_pages) (targetDir @ [js ''index.md''])
       = Some (utf8_encode (indexContent [js ''auth'']))"
    by (simp only: l)
  from o have o': "stdout no_config_pages = [js ''Migrated auth'']"
    by (simp add: l js_def)
  from no_config_run n m i' a o' show ?thesis by (intro conjI)
qed

text \<open>
  C4: when a run completes, a second run from the file system it left completes too,
  collects the same names, prints the same lines and leaves every file with the bytes it
  had after the first run (and the same directories).
\<close>

theorem second_run_identical:
  assumes "migrate F t = (None, s1)"
  shows "\<exists>s2. migrate F (root s1) = (None, s2)
           \<and> (\<forall>p. file_at (root s2) p = file_at (root s1) p)
           \<and> (\<forall>p. is_dir (root s2) p = is_dir (root s1) p)
           \<and> middlewareList s2 = middlewareList s1
           \<and> stdout s2 = stdout s1"
proof -
  from migrate_None_pages[OF assms] obtain s3 c where
    w: "write_pages F t = (None, s3)" and
    rc: "readFileSync_utf8 F (root s3) configPath = Inr c" and
    s1: "s1 = s3\<lparr>stdout := stdout s3 @ [js ''Middleware List for Sidebar:'',
                                         JSON_stringify (middlewareList s3)]\<rparr>"
    by blast
  from write_pages_again[OF w] obtain s3' where
    w': "write_pages F (root s3) = (None, s3')" and
    ml: "middlewareList s3' = middlewareList s3" and
    so: "stdout s3' = stdout s3" and
    dirs: "\<forall>q. is_dir (root s3') q = is_dir (root s3) q"
    by blast
  have "resolve (root s3') configPath = resolve (root s3) configPath"
    using write_pages_frame[OF w' config_outside_target] .
  then have "readFileSync_utf8 F (root s3') configPath = readFileSync_utf8 F (root s3) configPath"
    by (rule read_cong)
  with rc have rc': "readFileSync_utf8 F (root s3') configPath = Inr c"
    by simp
  let ?s2 = "s3'\<lparr>stdout := stdout s3' @ [js ''Middleware List for Sidebar:'',
                                         JSON_stringify (middlewareList s3')]\<rparr>"
  from w' rc' have "migrate F (root s3) = (None, ?s2)"
    by (simp add: migrate_def console_log_def)
  moreover have "\<forall>p. file_at (root ?s2) p = file_at (root s3) p"
    using write_pages_same_files[OF w w' ml] by simp
  ultimately show ?thesis using s1 ml so dirs by simp
qed



theorem second_run_identical_witness:
  "migrate no_faults example_tree = (None, example_final)
   \<and> migrate no_faults (root example_final) = (None, example_final)
   \<and> file_at (root example_final) (targetDir @ [js ''auth.md'']) = Some (ascii ''# Auth'')"
proof -
  from second_run_identical[OF example_run] obtain s2 where
    m: "migrate no_faults (root example_final) = (None, s2)" and
    f: "\<forall>p. file_at (root s2) p = file_at (root example_final) p"
    by blast
  from m example_rerun have "s2 = example_final" by simp
  with m have r: "migrate no_faults (root example_final) = (None, example_final)" by simp
  have a: "file_at (root example_final) (targetDir @ [js ''auth.md'']) = Some (ascii ''# Auth'')"
    by (simp add: example_final_def eval_defs)
  from example_run r a show ?thesis by (intro conjI)
qed

text \<open>
  C8 (as amended): no throwing call of the primary script is guarded.  Whichever of them
  throws (making the target directory, listing the source directory, \<open>statSync\<close>,
  reading a README, writing a copy, writing the index page, reading the configuration),
  and for whatever reason, permission denied included, the run ends with that exception
  in the state it had reached: the files written before stay, the entries after the
  failing one are not visited, nothing is tried again.  A failure inside \<open>existsSync\<close>
  is not an exception: the call answers \<open>false\<close>, so that at line 19 the entry is passed
  over like one without a README, and at line 7 \<open>mkdirSync\<close> is called.
\<close>

theorem failures_propagate:
  "(ensure_dir F t targetDir = Inl e \<longrightarrow>
      migrate F t = (Some e, \<lparr>root = t, stdout = [], middlewareList = []\<rparr>))
   \<and> (ensure_dir F t targetDir = Inr r1 \<and> readdirSync F r1 sourceDir = Inl e \<longrightarrow>
      migrate F t = (Some e, \<lparr>root = r1, stdout = [], middlewareList = []\<rparr>))
   \<and> (ensure_dir F t targetDir = Inr r1 \<and> readdirSync F r1 sourceDir = Inr (done @ mw # todo)
      \<and> forEach_mw F done \<lparr>root = r1, stdout = [], middlewareList = []\<rparr> = (None, s1)
      \<and> migrate_mw F mw s1 = (Some e, s') \<longrightarrow>
      migrate F t = (Some e, s1)
      \<and> (\<forall>x \<in> set done. has_readme F r1 x \<longrightarrow>
            (\<exists>b. file_at r1 (sourceDir @ [x, js ''README.md'']) = Some b
               \<and> file_at (root s1) (targetDir @ [x @ js ''.md'']) = Some (utf8_encode (utf8_decode b)))))
   \<and> (ensure_dir F t targetDir = Inr r1 \<and> readdirSync F r1 sourceDir = Inr mws
      \<and> forEach_mw F mws \<lparr>root = r1, stdout = [], middlewareList = []\<rparr> = (None, s2)
      \<and> writeFileSync F (root s2) (targetDir @ [js ''index.md'']) (indexContent (middlewareList s2)) = Inl e \<longrightarrow>
      migrate F t = (Some e, s2))
   \<and> (write_pages F t = (None, s3) \<and> readFileSync_utf8 F (root s3) configPath = Inl e \<longrightarrow>
      migrate F t = (Some e, s3))
   \<and> (migrate_mw F mw s = (Some e, s') \<longleftrightarrow>
        s' = s \<and>
        (statSync_isDirectory F (root s) (sourceDir @ [mw]) = Inl e
         \<or> (statSync_isDirectory F (root s) (sourceDir @ [mw]) = Inr True
             \<and> existsSync F (root s) (sourceDir @ [mw, js ''README.md''])
             \<and> (readFileSync_utf8 F (root s) (sourceDir @ [mw, js ''README.md'']) = Inl e
                 \<or> (\<exists>content. readFileSync_utf8 F (root s) (sourceDir @ [mw, js ''README.md'']) = Inr content
                       \<and> writeFileSync F (root s) (targetDir @ [mw @ js ''.md'']) content = Inl e)))))
   \<and> (statSync_isDirectory F (root s) (sourceDir @ [mw]) = Inr True
      \<and> \<not> existsSync F (root s) (sourceDir @ [mw, js ''README.md'']) \<longrightarrow>
      migrate_mw F mw s = (None, s))
   \<and> (F (ExistsSync p) = Some e \<longrightarrow> \<not> existsSync F t p)
   \<and> (F (ExistsSync targetDir) = Some e \<longrightarrow>
      ensure_dir F t targetDir = mkdirSync_recursive F t targetDir)"
proof (intro conjI impI)
  assume "ensure_dir F t targetDir = Inl e"
  then show "migrate F t = (Some e, \<lparr>root = t, stdout = [], middlewareList = []\<rparr>)"
    by (simp add: migrate_def write_pages_def)
next
  assume "ensure_dir F t targetDir = Inr r1 \<and> readdirSync F r1 sourceDir = Inl e"
  then show "migrate F t = (Some e, \<lparr>root = r1, stdout = [], middlewareList = []\<rparr>)"
    by (simp add: migrate_def write_pages_def)
next
  assume a: "ensure_dir F t targetDir = Inr r1 \<and> readdirSync F r1 sourceDir = Inr (done @ mw # todo)
      \<and> forEach_mw F done \<lparr>root = r1, stdout = [], middlewareList = []\<rparr> = (None, s1)
      \<and> migrate_mw F mw s1 = (Some e, s')"
  then have "forEach_mw F (done @ mw # todo) \<lparr>root = r1, stdout = [], middlewareList = []\<rparr> = (Some e, s1)"
    by (auto intro: forEach_mw_stops)
  with a have "write_pages F t = (Some e, s1)" by (simp add: write_pages_def)
  then show "migrate F t = (Some e, s1)" by (rule write_pages_Some_migrate)
  from a have f: "forEach_mw F done \<lparr>root = r1, stdout = [], middlewareList = []\<rparr> = (None, s1)"
    by simp
  show "\<forall>x \<in> set done. has_readme F r1 x \<longrightarrow>
            (\<exists>b. file_at r1 (sourceDir @ [x, js ''README.md'']) = Some b
               \<and> file_at (root s1) (targetDir @ [x @ js ''.md'']) = Some (utf8_encode (utf8_decode b)))"
    using forEach_mw_file_written[OF f] by simp
next
  assume "ensure_dir F t targetDir = Inr r1 \<and> readdirSync F r1 sourceDir = Inr mws
      \<and> forEach_mw F mws \<lparr>root = r1, stdout = [], middlewareList = []\<rparr> = (None, s2)
      \<and> writeFileSync F (root s2) (targetDir @ [js ''index.md'']) (indexContent (middlewareList s2)) = Inl e"
  then have "write_pages F t = (Some e, s2)" by (simp add: write_pages_def path_join_def)
  then show "migrate F t = (Some e, s2)" by (rule write_pages_Some_migrate)
next
  assume "write_pages F t = (None, s3) \<and> readFileSync_utf8 F (root s3) configPath = Inl e"
  then show "migrate F t = (Some e, s3)" by (simp add: migrate_def)
next
  show "migrate_mw F mw s = (Some e, s') \<longleftrightarrow>
        s' = s \<and>
        (statSync_isDirectory F (root s) (sourceDir @ [mw]) = Inl e
         \<or> (statSync_isDirectory F (root s) (sourceDir @ [mw]) = Inr True
             \<and> existsSync F (root s) (sourceDir @ [mw, js ''README.md''])
             \<and> (readFileSync_utf8 F (root s) (sourceDir @ [mw, js ''README.md'']) = Inl e
                 \<or> (\<exists>content. readFileSync_utf8 F (root s) (sourceDir @ [mw, js ''README.md'']) = Inr content
                       \<and> writeFileSync F (root s) (targetDir @ [mw @ js ''.md'']) content = Inl e))))"
    by (rule migrate_mw_throws)
next
  assume "statSync_isDirectory F (root s) (sourceDir @ [mw]) = Inr True
      \<and> \<not> existsSync F (root s) (sourceDir @ [mw, js ''README.md''])"
  then show "migrate_mw F mw s = (None, s)" by (simp add: migrate_mw_skips)
next
  assume "F (ExistsSync p) = Some e"
  then show "\<not> existsSync F t p" by (simp add: existsSync_def)
next
  assume "F (ExistsSync targetDir) = Some e"
  then show "ensure_dir F t targetDir = mkdirSync_recursive F t targetDir"
    by (simp add: ensure_dir_def existsSync_def)
qed


theorem failures_propagate_witness:
  "ensure_dir listing_denied example_tree targetDir = Inr example_prepared
   \<and> readdirSync listing_denied example_prepared sourceDir = Inl EACCES
   \<and> migrate listing_denied example_tree
       = (Some EACCES, \<lparr>root = example_prepared, stdout = [], middlewareList = []\<rparr>)
   \<and> ensure_dir no_faults broken_tree targetDir = Inr broken_prepared
   \<and> readdirSync no_faults broken_prepared sourceDir = Inr ([js ''auth''] @ js ''cors'' # [])
   \<and> forEach_mw no_faults [js ''auth''] \<lparr>root = broken_prepared, stdout = [], middlewareList = []\<rparr>
       = (None, broken_stopped)
   \<and> migrate_mw no_faults (js ''cors'') broken_stopped = (Some EISDIR, broken_stopped)
   \<and> migrate no_faults broken_tree = (Some EISDIR, broken_stopped)
   \<and> has_readme no_faults broken_prepared (js ''auth'')
   \<and> file_at (root broken_stopped) (targetDir @ [js ''auth'' @ js ''.md'']) = Some (ascii ''# Auth'')
   \<and> readme_hidden (ExistsSync (sourceDir @ [js ''locked'', js ''README.md''])) = Some EACCES
   \<and> migrate_mw readme_hidden (js ''locked'') \<lparr>root = locked_tree, stdout = [], middlewareList = []\<rparr>
       = (None, \<lparr>root = locked_tree, stdout = [], middlewareList = []\<rparr>)"
proof -
  have e1: "ensure_dir listing_denied example_tree targetDir = Inr example_prepared"
    by (simp add: eval_defs)
  have l1: "readdirSync listing_denied example_prepared sourceDir = Inl EACCES"
    by (simp add: eval_defs)
  from failures_propagate[where F = listing_denied and t = example_tree and e = EACCES
      and ?r1.0 = example_prepared] e1 l1
  have m1: "migrate listing_denied example_tree
       = (Some EACCES, \<lparr>root = example_prepared, stdout = [], middlewareList = []\<rparr>)"
    by blast
  have e2: "ensure_dir no_faults broken_tree targetDir = Inr broken_prepared"
    by (simp add: eval_defs)
  have l2: "readdirSync no_faults broken_prepared sourceDir = Inr ([js ''auth''] @ js ''cors'' # [])"
    by (simp add: eval_defs)
  have f2: "forEach_mw no_faults [js ''auth''] \<lparr>root = broken_prepared, stdout = [], middlewareList = []\<rparr>
       = (None, broken_stopped)"
    by (simp add: eval_defs broken_stopped_def)
  have b2: "migrate_mw no_faults (js ''cors'') broken_stopped = (Some EISDIR, broken_stopped)"
    by (simp add: eval_defs broken_stopped_def)
  have h2: "has_readme no_faults broken_prepared (js ''auth'')"
    by (simp add: has_readme_def eval_defs)
  have r2: "file_at broken_prepared (sourceDir @ [js ''auth'', js ''README.md'']) = Some (ascii ''# Auth'')"
    by (simp add: eval_defs)
  have w2: "utf8_encode (utf8_decode (ascii ''# Auth'')) = ascii ''# Auth''"
    by (simp add: ascii_def encode_cp_def)
  from failures_propagate[where F = no_faults and t = broken_tree and e = EISDIR
      and ?r1.0 = broken_prepared and ?done = "[js ''auth'']" and mw = "js ''cors''" and todo = "[]"
      and ?s1.0 = broken_stopped and s' = broken_stopped] e2 l2 f2 b2
  have m2: "migrate no_faults broken_tree = (Some EISDIR, broken_stopped)"
    and k2: "\<forall>x \<in> set [js ''auth'']. has_readme no_faults broken_prepared x \<longrightarrow>
            (\<exists>b. file_at broken_prepared (sourceDir @ [x, js ''README.md'']) = Some b
               \<and> file_at (root broken_stopped) (targetDir @ [x @ js ''.md''])
                   = Some (utf8_encode (utf8_decode b)))"
    by blast+
  from k2 h2 r2 w2
  have a2: "file_at (root broken_stopped) (targetDir @ [js ''auth'' @ js ''.md'']) = Some (ascii ''# Auth'')"
    by auto
  have h3: "readme_hidden (ExistsSync (sourceDir @ [js ''locked'', js ''README.md''])) = Some EACCES"
    by (simp add: readme_hidden_def)
  have s3: "statSync_isDirectory readme_hidden locked_tree (sourceDir @ [js ''locked'']) = Inr True"
    by (simp add: eval_defs)
  from failures_propagate[where F = readme_hidden and t = locked_tree and e = EACCES
      and p = "sourceDir @ [js ''locked'', js ''README.md'']"] h3
  have n3: "\<not> existsSync readme_hidden locked_tree (sourceDir @ [js ''locked'', js ''README.md''])"
    by blast
  from failures_propagate[where F = readme_hidden and mw = "js ''locked''"
      and s = "\<lparr>root = locked_tree, stdout = [], middlewareList = []\<rparr>"] s3 n3
  have m3: "migrate_mw readme_hidden (js ''locked'') \<lparr>root = locked_tree, stdout = [], middlewareList = []\<rparr>
       = (None, \<lparr>root = locked_tree, stdout = [], middlewareList = []\<rparr>)"
    by simp
  from e1 l1 m1 e2 l2 f2 b2 m2 h2 a2 h3 m3 show ?thesis by (intro conjI)
qed

theorem failures_propagate_counterexample:
  "readme_hidden (ExistsSync (sourceDir @ [js ''locked'', js ''README.md''])) = Some EACCES
   \<and> is_dir locked_tree (sourceDir @ [js ''locked''])
   \<and> file_at locked_tree (sourceDir @ [js ''locked'', js ''README.md'']) = Some (ascii ''# Locked'')
   \<and> migrate readme_hidden locked_tree = (None, locked_final)
   \<and> file_at (root locked_final) (targetDir @ [js ''locked.md'']) = None"
proof -
  have h: "readme_hidden (ExistsSync (sourceDir @ [js ''locked'', js ''README.md''])) = Some EACCES"
    by (simp add: readme_hidden_def)
  have d: "is_dir locked_tree (sourceDir @ [js ''locked''])"
    by (simp add: eval_defs)
  have r: "file_at locked_tree (sourceDir @ [js ''locked'', js ''README.md'']) = Some (ascii ''# Locked'')"
    by (simp add: eval_defs)
  have o: "file_at (root locked_final) (targetDir @ [js ''locked.md'']) = None"
    by (simp add: eval_defs locked_final_def)
  from h d r locked_run o show ?thesis by (intro conjI)
qed

text \<open>
  C7 (as amended): in a round of the secondary script in which the destination directory
  exists or has been made, a source that \<open>existsSync\<close> does not find (it does not exist,
  or the check cannot reach it) gives exactly one line \<open>WARNING: Source not found\<close>,
  nothing is written and the loop goes on without an exception; a source that it finds,
  that is a file and is read, and whose destination is written gives one line
  \<open>Migrated ... -> ...\<close> and a destination that holds the text of the source encoded
  again as UTF-8, the very bytes of the source when these are well-formed UTF-8.
\<close>

theorem copy_mapping_outcomes:
  assumes "srcPath = path_resolve project_root (src m)"
    and "destPath = path_resolve project_root (dest m)"
    and "ensure_dir F (root w) (path_dirname destPath) = Inr r1"
  shows "(\<not> existsSync F r1 srcPath \<longrightarrow>
            copy_mapping F m w
              = (None, \<lparr>root = r1, stdout = stdout w @ [js ''WARNING: Source not found: '' @ src m]\<rparr>)
            \<and> forEach_mapping F (m # ms) w
              = forEach_mapping F ms
                  \<lparr>root = r1, stdout = stdout w @ [js ''WARNING: Source not found: '' @ src m]\<rparr>)
       \<and> (existsSync F r1 srcPath \<and> F (ReadFileSync srcPath) = None \<and> file_at r1 srcPath = Some b
            \<and> writeFileSync F r1 destPath (utf8_decode b) = Inr r2 \<longrightarrow>
            copy_mapping F m w
              = (None, \<lparr>root = r2,
                        stdout = stdout w @ [js ''Migrated '' @ src m @ js '' -> '' @ dest m]\<rparr>)
            \<and> file_at r2 destPath = Some (utf8_encode (utf8_decode b))
            \<and> (well_formed_utf8 b \<longrightarrow> file_at r2 destPath = Some b)
            \<and> forEach_mapping F (m # ms) w
              = forEach_mapping F ms
                  \<lparr>root = r2,
                   stdout = stdout w @ [js ''Migrated '' @ src m @ js '' -> '' @ dest m]\<rparr>)
       \<and> (existsSync F r1 srcPath \<longleftrightarrow>
            F (ExistsSync srcPath) = None \<and> (\<exists>x. resolve r1 srcPath = Inr x))"
proof (intro conjI impI)
  assume a: "\<not> existsSync F r1 srcPath"
  with assms show c: "copy_mapping F m w
      = (None, \<lparr>root = r1, stdout = stdout w @ [js ''WARNING: Source not found: '' @ src m]\<rparr>)"
    by (simp add: copy_mapping_unfold)
  then show "forEach_mapping F (m # ms) w
      = forEach_mapping F ms
          \<lparr>root = r1, stdout = stdout w @ [js ''WARNING: Source not found: '' @ src m]\<rparr>"
    by simp
next
  assume a: "existsSync F r1 srcPath \<and> F (ReadFileSync srcPath) = None \<and> file_at r1 srcPath = Some b
            \<and> writeFileSync F r1 destPath (utf8_decode b) = Inr r2"
  then have rd: "readFileSync_utf8 F r1 srcPath = Inr (utf8_decode b)"
    by (auto simp: readFileSync_utf8_def file_at_def split: sum.splits node.splits)
  with a assms show c: "copy_mapping F m w
      = (None, \<lparr>root = r2,
                stdout = stdout w @ [js ''Migrated '' @ src m @ js '' -> '' @ dest m]\<rparr>)"
    by (simp add: copy_mapping_unfold)
  then show "forEach_mapping F (m # ms) w
      = forEach_mapping F ms
          \<lparr>root = r2, stdout = stdout w @ [js ''Migrated '' @ src m @ js '' -> '' @ dest m]\<rparr>"
    by simp
  from a have "write_at r1 destPath (utf8_encode (utf8_decode b)) = Inr r2"
    by (auto simp: writeFileSync_def split: option.splits)
  then show f: "file_at r2 destPath = Some (utf8_encode (utf8_decode b))"
    by (simp add: file_at_write)
  assume "well_formed_utf8 b"
  with f show "file_at r2 destPath = Some b" by (simp add: utf8_roundtrip)
next
  show "existsSync F r1 srcPath \<longleftrightarrow>
      F (ExistsSync srcPath) = None \<and> (\<exists>x. resolve r1 srcPath = Inr x)"
    by (rule existsSync_iff)
qed

theorem copy_mapping_outcomes_witness:
  "ensure_dir no_faults remaining_tree (path_dirname (project_root @ [js ''docs'', js ''guide'', js ''tutorial.md'']))
     = Inr remaining_guide
   \<and> existsSync no_faults remaining_guide (project_root @ [js ''documentation'', js ''tutorial.md''])
   \<and> file_at remaining_guide (project_root @ [js ''documentation'', js ''tutorial.md''])
       = Some (ascii ''# Tutorial'')
   \<and> well_formed_utf8 (ascii ''# Tutorial'')
   \<and> writeFileSync no_faults remaining_guide (project_root @ [js ''docs'', js ''guide'', js ''tutorial.md''])
         (utf8_decode (ascii ''# Tutorial'')) = Inr remaining_copied
   \<and> ensure_dir no_faults remaining_copied (path_dirname (project_root @ [js ''docs'', js ''core'', js ''db.md'']))
       = Inr (root remaining_final)
   \<and> \<not> existsSync no_faults (root remaining_final)
         (project_root @ [js ''documentation'', js ''db'', js ''README.md''])
   \<and> forEach_mapping no_faults [tutorial_mapping, db_mapping] \<lparr>root = remaining_tree, stdout = []\<rparr>
       = (None, remaining_final)
   \<and> file_at (root remaining_final) (project_root @ [js ''docs'', js ''guide'', js ''tutorial.md''])
       = Some (ascii ''# Tutorial'')
   \<and> stdout remaining_final
       = [js ''Migrated documentation/tutorial.md -> docs/guide/tutorial.md'',
          js ''WARNING: Source not found: documentation/db/README.md'']"
proof -
  let ?src1 = "project_root @ [js ''documentation'', js ''tutorial.md'']"
  let ?dest1 = "project_root @ [js ''docs'', js ''guide'', js ''tutorial.md'']"
  let ?src2 = "project_root @ [js ''documentation'', js ''db'', js ''README.md'']"
  let ?dest2 = "project_root @ [js ''docs'', js ''core'', js ''db.md'']"
  let ?w0 = "\<lparr>root = remaining_tree, stdout = []\<rparr>"
  let ?line1 = "js ''Migrated '' @ src tutorial_mapping @ js '' -> '' @ dest tutorial_mapping"
  let ?line2 = "js ''WARNING: Source not found: '' @ src db_mapping"
  let ?w1 = "\<lparr>root = remaining_copied, stdout = stdout ?w0 @ [?line1]\<rparr>"
  have s1: "?src1 = path_resolve project_root (src tutorial_mapping)"
    by (simp add: tutorial_mapping_def project_root_eq path_resolve_def js_def)
  have d1: "?dest1 = path_resolve project_root (dest tutorial_mapping)"
    by (simp add: tutorial_mapping_def project_root_eq path_resolve_def js_def)
  have s2: "?src2 = path_resolve project_root (src db_mapping)"
    by (simp add: db_mapping_def project_root_eq path_resolve_def js_def)
  have d2: "?dest2 = path_resolve project_root (dest db_mapping)"
    by (simp add: db_mapping_def project_root_eq path_resolve_def js_def)
  have e1: "ensure_dir no_faults (root ?w0) (path_dirname ?dest1) = Inr remaining_guide"
    by (simp add: eval_defs remaining_defs)
  have x1: "existsSync no_faults remaining_guide ?src1"
    by (simp add: eval_defs remaining_defs)
  have f1: "file_at remaining_guide ?src1 = Some (ascii ''# Tutorial'')"
    by (simp add: eval_defs remaining_defs)
  have wf: "well_formed_utf8 (ascii ''# Tutorial'')"
    by (simp add: ascii_def)
  have w1: "writeFileSync no_faults remaining_guide ?dest1 (utf8_decode (ascii ''# Tutorial''))
      = Inr remaining_copied"
    by (simp add: eval_defs remaining_defs)
  have nf: "no_faults (ReadFileSync ?src1) = None"
    by (simp add: no_faults_def)
  have e2: "ensure_dir no_faults (root ?w1) (path_dirname ?dest2) = Inr (root remaining_final)"
    by (simp add: eval_defs remaining_defs)
  have x2: "\<not> existsSync no_faults (root remaining_final) ?src2"
    by (simp add: eval_defs remaining_defs)
  from copy_mapping_outcomes[OF s1 d1 e1, where b = "ascii ''# Tutorial''" and ?r2.0 = remaining_copied
      and ms = "[db_mapping]"] x1 nf f1 w1 wf
  have r1: "forEach_mapping no_faults [tutorial_mapping, db_mapping] ?w0
      = forEach_mapping no_faults [db_mapping] ?w1"
    and c1: "file_at remaining_copied ?dest1 = Some (ascii ''# Tutorial'')"
    by blast+
  from copy_mapping_outcomes[OF s2 d2 e2, where ms = "[]"] x2
  have r2: "forEach_mapping no_faults [db_mapping] ?w1
      = forEach_mapping no_faults [] \<lparr>root = root remaining_final, stdout = stdout ?w1 @ [?line2]\<rparr>"
    by blast
  have fin: "\<lparr>root = root remaining_final, stdout = stdout ?w1 @ [?line2]\<rparr> = remaining_final"
    by (simp add: remaining_final_def tutorial_mapping_def db_mapping_def js_def)
  from r1 r2 fin have run: "forEach_mapping no_faults [tutorial_mapping, db_mapping] ?w0
      = (None, remaining_final)"
    by simp
  have c2: "file_at (root remaining_final) ?dest1 = Some (ascii ''# Tutorial'')"
    by (simp add: eval_defs remaining_defs)
  have o: "stdout remaining_final
       = [js ''Migrated documentation/tutorial.md -> docs/guide/tutorial.md'',
          js ''WARNING: Source not found: documentation/db/README.md'']"
    by (simp add: remaining_final_def)
  from e1 x1 f1 wf w1 e2 x2 run c2 o show ?thesis by simp
qed

theorem copy_mapping_outcomes_counterexample:
  "file_at latin1_tree (project_root @ [js ''documentation'', js ''tutorial.md''])
     = Some [0x63, 0x61, 0x66, 0xE9]
   \<and> fst (copy_mapping no_faults tutorial_mapping \<lparr>root = latin1_tree, stdout = []\<rparr>) = None
   \<and> file_at (root (snd (copy_mapping no_faults tutorial_mapping \<lparr>root = latin1_tree, stdout = []\<rparr>)))
         (project_root @ [js ''docs'', js ''guide'', js ''tutorial.md''])
       = Some [0x63, 0x61, 0x66, 0xEF, 0xBF, 0xBD]
   \<and> \<not> exists_at blocked_tree (project_root @ [js ''documentation'', js ''db'', js ''README.md''])
   \<and> copy_mapping no_faults db_mapping \<lparr>root = blocked_tree, stdout = []\<rparr>
       = (Some ENOTDIR, \<lparr>root = blocked_tree, stdout = []\<rparr>)
   \<and> file_at remaining_guide (project_root @ [js ''documentation'', js ''tutorial.md''])
       = Some (ascii ''# Tutorial'')
   \<and> copy_mapping tutorial_hidden tutorial_mapping \<lparr>root = remaining_guide, stdout = []\<rparr>
       = (None, \<lparr>root = remaining_guide,
                 stdout = [js ''WARNING: Source not found: documentation/tutorial.md'']\<rparr>)"
proof -
  have a1: "file_at latin1_tree (project_root @ [js ''documentation'', js ''tutorial.md''])
     = Some [0x63, 0x61, 0x66, 0xE9]"
    by (simp add: eval_defs remaining_defs)
  have a2: "fst (copy_mapping no_faults tutorial_mapping \<lparr>root = latin1_tree, stdout = []\<rparr>) = None"
    by (simp add: eval_defs remaining_defs)
  have a3: "file_at (root (snd (copy_mapping no_faults tutorial_mapping \<lparr>root = latin1_tree, stdout = []\<rparr>)))
         (project_root @ [js ''docs'', js ''guide'', js ''tutorial.md''])
       = Some [0x63, 0x61, 0x66, 0xEF, 0xBF, 0xBD]"
    by (simp add: eval_defs remaining_defs)
  have b1: "\<not> exists_at blocked_tree (project_root @ [js ''documentation'', js ''db'', js ''README.md''])"
    by (simp add: eval_defs remaining_defs)
  have b2: "copy_mapping no_faults db_mapping \<lparr>root = blocked_tree, stdout = []\<rparr>
       = (Some ENOTDIR, \<lparr>root = blocked_tree, stdout = []\<rparr>)"
    by (simp add: eval_defs remaining_defs)
  have c1: "file_at remaining_guide (project_root @ [js ''documentation'', js ''tutorial.md''])
       = Some (ascii ''# Tutorial'')"
    by (simp add: eval_defs remaining_defs)
  have c2: "copy_mapping tutorial_hidden tutorial_mapping \<lparr>root = remaining_guide, stdout = []\<rparr>
       = (None, \<lparr>root = remaining_guide,
                 stdout = [js ''WARNING: Source not found: documentation/tutorial.md'']\<rparr>)"
    by (simp add: eval_defs remaining_defs)
  from a1 a2 a3 b1 b2 c1 c2 show ?thesis by (intro conjI)
qed




end
